theory Spec2Isabelle
  imports Main
begin

section \<open>RPKI manifests (RFC 6486): a model of rpki-client's mft.c\<close>

text \<open>
  The theory follows \<^verbatim>\<open>usr.sbin/rpki-client/mft.c\<close> function by function.
  Byte buffers and C strings are \<^typ>\<open>string\<close> (a list of 8-bit characters); a
  \<^verbatim>\<open>char *\<close> that may be NULL is a \<^typ>\<open>string option\<close>.  A C string is the list of
  its characters before the terminating NUL, so \<^verbatim>\<open>strlen\<close> is \<^const>\<open>length\<close>; where
  the source makes a C string out of raw bytes (\<^verbatim>\<open>strndup\<close>), the cut at the first
  NUL byte is written out.  Counts (\<^verbatim>\<open>size_t\<close>, lengths) are natural numbers and
  \<^verbatim>\<open>int\<close> results are integers; the only place where their width matters is the wire
  format of the codec, where the reduction modulo the width is written out.  Memory
  allocation is taken to succeed (the source ends the process with \<^verbatim>\<open>err(1, NULL)\<close>
  otherwise).
\<close>

subsection \<open>Fatal outcomes\<close>

datatype fatal =
    Abort  \<comment> \<open>a failed \<^verbatim>\<open>assert\<close>, or \<^verbatim>\<open>errx\<close> on a short read\<close>
  | Fault  \<comment> \<open>an access through a NULL pointer, outside an array, or through a member
      of a union that the value does not hold\<close>

subsection \<open>ASN.1 values as OpenSSL hands them over\<close>

text \<open>
  An \<^verbatim>\<open>ASN1_TYPE\<close> is a tag with a union; the constructors below are the tags the
  manifest grammar looks at, each with the member of the union that the source reads
  for it.  A nested SEQUENCE is kept as its undecoded bytes (\<^verbatim>\<open>t->value.octet_string\<close>),
  an INTEGER as the number that \<^verbatim>\<open>ASN1_INTEGER_to_BN\<close> makes of it, and an OBJECT as
  its arcs.  For a NULL the union holds a NULL pointer and for a BOOLEAN a number; every
  other tag (\<open>V_OTHER\<close>) comes with an \<^verbatim>\<open>ASN1_STRING\<close>.
\<close>

datatype ASN1_TYPE =
    V_INTEGER int
  | V_BIT_STRING string
  | V_OBJECT "nat list"
  | V_SEQUENCE string
  | V_IA5STRING string
  | V_GENERALIZEDTIME string
  | V_NULL
  | V_BOOLEAN int
  | V_OTHER int string

definition V_ASN1_BOOLEAN :: int where "V_ASN1_BOOLEAN = 1"
definition V_ASN1_NULL :: int where "V_ASN1_NULL = 5"
definition V_ASN1_INTEGER :: int where "V_ASN1_INTEGER = 2"
definition V_ASN1_BIT_STRING :: int where "V_ASN1_BIT_STRING = 3"
definition V_ASN1_OBJECT :: int where "V_ASN1_OBJECT = 6"
definition V_ASN1_SEQUENCE :: int where "V_ASN1_SEQUENCE = 16"
definition V_ASN1_IA5STRING :: int where "V_ASN1_IA5STRING = 22"
definition V_ASN1_GENERALIZEDTIME :: int where "V_ASN1_GENERALIZEDTIME = 24"
definition NID_sha256 :: int where "NID_sha256 = 672"
definition SHA256_DIGEST_LENGTH :: nat where "SHA256_DIGEST_LENGTH = 32"
definition INT_MAX :: nat where "INT_MAX = 2147483647"

fun asn1_type :: "ASN1_TYPE \<Rightarrow> int" where
  "asn1_type (V_INTEGER _) = V_ASN1_INTEGER"
| "asn1_type (V_BIT_STRING _) = V_ASN1_BIT_STRING"
| "asn1_type (V_OBJECT _) = V_ASN1_OBJECT"
| "asn1_type (V_SEQUENCE _) = V_ASN1_SEQUENCE"
| "asn1_type (V_IA5STRING _) = V_ASN1_IA5STRING"
| "asn1_type (V_GENERALIZEDTIME _) = V_ASN1_GENERALIZEDTIME"
| "asn1_type V_NULL = V_ASN1_NULL"
| "asn1_type (V_BOOLEAN _) = V_ASN1_BOOLEAN"
| "asn1_type (V_OTHER t _) = t"

subsection \<open>Collaborators outside mft.c\<close>

text \<open>
  Everything mft.c calls but does not define is a field of this record: the DER
  decoder, the clock and calendar of libc and libcrypto, the CMS envelope and the
  certificate accessors, and the file digest check.  \<^typ>\<open>'x\<close> stands for \<^verbatim>\<open>X509\<close>
  and \<^typ>\<open>'tm\<close> for \<^verbatim>\<open>struct tm\<close>.  \<open>ASN1_time_parse\<close> gives its return value and the
  calendar time it has filled in; \<open>cms_econtent_version\<close> receives the bytes it is to
  decode and gives \<open>None\<close> for its return value -1 and the version otherwise.
\<close>

record ('x, 'tm) extern =
  d2i_ASN1_SEQUENCE_ANY :: "string \<Rightarrow> ASN1_TYPE list option"
  cms_econtent_version :: "string \<Rightarrow> int option"
  OBJ_obj2nid :: "nat list \<Rightarrow> int"
  time_NULL :: int
  gmtime_r :: "int \<Rightarrow> 'tm option"
  ASN1_time_parse :: "string \<Rightarrow> nat \<Rightarrow> int \<Rightarrow> int \<times> 'tm"
  ASN1_time_tm_cmp :: "'tm \<Rightarrow> 'tm \<Rightarrow> int"
  cms_parse_validate :: "string \<Rightarrow> nat list \<Rightarrow> (string \<times> 'x option) option"
  x509_get_aia :: "'x \<Rightarrow> string option"
  x509_get_aki :: "'x \<Rightarrow> int \<Rightarrow> string option"
  x509_get_ski :: "'x \<Rightarrow> string option"
  valid_filehash :: "string \<Rightarrow> string \<Rightarrow> nat \<Rightarrow> bool"

subsection \<open>The parsed manifest\<close>

record mftfile =
  mf_file :: "string option"  \<comment> \<open>\<^verbatim>\<open>char *file\<close>\<close>
  mf_hash :: string           \<comment> \<open>\<^verbatim>\<open>unsigned char hash[SHA256_DIGEST_LENGTH]\<close>\<close>

record mft =
  mft_file :: "string option"  \<comment> \<open>\<^verbatim>\<open>char *file\<close>, the path of the manifest\<close>
  files :: "mftfile list option"  \<comment> \<open>the array behind \<^verbatim>\<open>struct mftfile *files\<close>, \<open>None\<close> for NULL\<close>
  filesz :: nat
  stale :: int
  seqnum :: "string option"
  aia :: "string option"
  aki :: "string option"
  ski :: "string option"

text \<open>What \<^verbatim>\<open>calloc\<close> returns: all fields zero.\<close>

definition calloc_mftfile :: mftfile where
  "calloc_mftfile = \<lparr>mf_file = None, mf_hash = replicate SHA256_DIGEST_LENGTH (CHR 0x00)\<rparr>"

definition calloc_mft :: mft where
  "calloc_mft = \<lparr>mft_file = None, files = None, filesz = 0, stale = 0, seqnum = None,
     aia = None, aki = None, ski = None\<rparr>"

subsection \<open>libc and libcrypto helpers with a fixed meaning\<close>

definition strndup :: "string \<Rightarrow> nat \<Rightarrow> string" where
  "strndup s n = takeWhile (\<lambda>c. c \<noteq> CHR 0x00) (take n s)"

text \<open>\<^verbatim>\<open>strrchr(s, c)\<close> as the offset of the last occurrence, \<open>None\<close> for NULL.\<close>

fun strrchr :: "string \<Rightarrow> char \<Rightarrow> nat option" where
  "strrchr [] c = None"
| "strrchr (x # xs) c =
     (case strrchr xs c of
        Some i \<Rightarrow> Some (Suc i)
      | None \<Rightarrow> if x = c then Some 0 else None)"

text \<open>
  A \<^verbatim>\<open>BIGNUM\<close> is the integer it holds.  \<^verbatim>\<open>BN_num_bytes\<close> is the macro
  \<^verbatim>\<open>(BN_num_bits(a) + 7) / 8\<close>; \<^verbatim>\<open>BN_bn2hex\<close> prints a minus sign for a negative
  number, \<^verbatim>\<open>0\<close> for zero, and two upper-case digits for every byte of the magnitude
  from its first non-zero byte on.
\<close>

fun num_bits :: "nat \<Rightarrow> nat" where
  "num_bits n = (if n = 0 then 0 else Suc (num_bits (n div 2)))"

declare num_bits.simps [simp del]

definition BN_num_bits :: "int \<Rightarrow> nat" where
  "BN_num_bits a = num_bits (nat \<bar>a\<bar>)"

definition BN_num_bytes :: "int \<Rightarrow> nat" where
  "BN_num_bytes a = (BN_num_bits a + 7) div 8"

definition BN_is_negative :: "int \<Rightarrow> bool" where
  "BN_is_negative a = (a < 0)"

definition Hex :: string where
  "Hex = ''0123456789ABCDEF''"

fun be_bytes :: "nat \<Rightarrow> nat list" where
  "be_bytes n = (if n = 0 then [] else be_bytes (n div 256) @ [n mod 256])"

declare be_bytes.simps [simp del]

definition hex_byte :: "nat \<Rightarrow> string" where
  "hex_byte v = [Hex ! (v div 16), Hex ! (v mod 16)]"

definition BN_bn2hex :: "int \<Rightarrow> string" where
  "BN_bn2hex a =
     (if a < 0 then ''-'' else []) @
     (if a = 0 then ''0'' else concat (map hex_byte (be_bytes (nat \<bar>a\<bar>))))"

text \<open>The number an unsigned hexadecimal string denotes, to read a stored sequence
  number back.\<close>

definition hex_digit :: "char \<Rightarrow> nat" where
  "hex_digit c = length (takeWhile (\<lambda>h. h \<noteq> c) Hex)"

definition hex_value :: "string \<Rightarrow> nat" where
  "hex_value s = foldl (\<lambda>a c. 16 * a + hex_digit c) 0 s"

text \<open>
  The \<^verbatim>\<open>ASN1_STRING\<close> of an element (\<^verbatim>\<open>t->value.asn1_string\<close>): its bytes where the
  union holds one (for an INTEGER the bytes of the magnitude), \<open>None\<close> where it holds
  a NULL pointer, a number or an \<^verbatim>\<open>ASN1_OBJECT\<close>, so that reading it as a string
  is a fault.
\<close>

fun asn1_string :: "ASN1_TYPE \<Rightarrow> string option" where
  "asn1_string (V_INTEGER n) =
     Some (if n = 0 then [CHR 0x00] else map char_of (be_bytes (nat \<bar>n\<bar>)))"
| "asn1_string (V_BIT_STRING s) = Some s"
| "asn1_string (V_OBJECT obj) = None"
| "asn1_string (V_SEQUENCE s) = Some s"
| "asn1_string (V_IA5STRING s) = Some s"
| "asn1_string (V_GENERALIZEDTIME s) = Some s"
| "asn1_string V_NULL = None"
| "asn1_string (V_BOOLEAN b) = None"
| "asn1_string (V_OTHER t s) =
     (if t = V_ASN1_NULL \<or> t = V_ASN1_BOOLEAN \<or> t = V_ASN1_OBJECT then None else Some s)"

subsection \<open>check_validity\<close>

definition generalizedtime_to_tm :: "('x, 'tm) extern \<Rightarrow> string \<Rightarrow> 'tm option" where
  "generalizedtime_to_tm ext gtime =
     (case ASN1_time_parse ext gtime (length gtime) V_ASN1_GENERALIZEDTIME of
        (r, tm) \<Rightarrow> if r = V_ASN1_GENERALIZEDTIME then Some tm else None)"

text \<open>Returns 1 if all is good, 0 if the manifest is stale, -1 in any other case.\<close>

definition check_validity :: "('x, 'tm) extern \<Rightarrow> string \<Rightarrow> string \<Rightarrow> int" where
  "check_validity ext from until =
     (case gmtime_r ext (time_NULL ext) of
        None \<Rightarrow> -1
      | Some tm_now \<Rightarrow>
     (case generalizedtime_to_tm ext from of
        None \<Rightarrow> -1
      | Some tm_from \<Rightarrow>
     (case generalizedtime_to_tm ext until of
        None \<Rightarrow> -1
      | Some tm_until \<Rightarrow>
          if ASN1_time_tm_cmp ext tm_until tm_from < 0 then -1
          else if ASN1_time_tm_cmp ext tm_from tm_now > 0 then -1
          else if ASN1_time_tm_cmp ext tm_until tm_now < 0 then 0
          else 1)))"

subsection \<open>mft_parse_filehash and mft_parse_flist\<close>

text \<open>
  One FileAndHash element: the result is the return code (0 for failure) and the
  manifest under construction.  The entry is stored at index \<open>filesz\<close> of the array
  that \<open>mft_parse_flist\<close> has allocated; the source does not check that index.
\<close>

definition mft_parse_filehash ::
  "('x, 'tm) extern \<Rightarrow> mft \<Rightarrow> string \<Rightarrow> fatal + (int \<times> mft)" where
  "mft_parse_filehash ext res os =
     (case d2i_ASN1_SEQUENCE_ANY ext os of
        None \<Rightarrow> Inr (0, res)
      | Some seq \<Rightarrow>
          if length seq \<noteq> 2 then Inr (0, res)
          else (case seq ! 0 of
            V_IA5STRING ia5 \<Rightarrow>
              (let fn = strndup ia5 (length ia5) in
               if CHR ''/'' \<in> set fn then Inr (0, res)
               else if length fn \<le> 4 then Inr (0, res)
               else (case seq ! 1 of
                 V_BIT_STRING bits \<Rightarrow>
                   if length bits \<noteq> SHA256_DIGEST_LENGTH then Inr (0, res)
                   else (case files res of
                     None \<Rightarrow> Inl Fault
                   | Some arr \<Rightarrow>
                       if length arr \<le> filesz res then Inl Fault
                       else Inr (1, res\<lparr>
                         files := Some (arr[filesz res :=
                           \<lparr>mf_file = Some fn, mf_hash = take SHA256_DIGEST_LENGTH bits\<rparr>]),
                         filesz := Suc (filesz res)\<rparr>))
               | _ \<Rightarrow> Inr (0, res)))
          | _ \<Rightarrow> Inr (0, res)))"

text \<open>The loop of \<open>mft_parse_flist\<close> over the elements not yet visited.\<close>

fun flist_loop :: "('x, 'tm) extern \<Rightarrow> ASN1_TYPE list \<Rightarrow> mft \<Rightarrow> fatal + (int \<times> mft)" where
  "flist_loop ext [] res = Inr (1, res)"
| "flist_loop ext (t # ts) res =
     (case t of
        V_SEQUENCE os \<Rightarrow>
          (case mft_parse_filehash ext res os of
             Inl e \<Rightarrow> Inl e
           | Inr (rc, res') \<Rightarrow> if rc = 0 then Inr (0, res') else flist_loop ext ts res')
      | _ \<Rightarrow> Inr (0, res))"

definition mft_parse_flist ::
  "('x, 'tm) extern \<Rightarrow> mft \<Rightarrow> string \<Rightarrow> fatal + (int \<times> mft)" where
  "mft_parse_flist ext res os =
     (case d2i_ASN1_SEQUENCE_ANY ext os of
        None \<Rightarrow> Inr (0, res)
      | Some seq \<Rightarrow>
          flist_loop ext seq (res\<lparr>files := Some (replicate (length seq) calloc_mftfile)\<rparr>))"

subsection \<open>mft_parse_econtent\<close>

text \<open>
  Returns a negative code on failure, 0 on stale, a positive one on success.  With six
  elements the first one is read as a string, without a look at its tag, and handed
  to \<open>cms_econtent_version\<close>; every path from there leaves, so the index \<open>i\<close> of the
  source is 0 when the sequence number is read.
\<close>

definition mft_parse_econtent ::
  "('x, 'tm) extern \<Rightarrow> string \<Rightarrow> mft \<Rightarrow> fatal + (int \<times> mft)" where
  "mft_parse_econtent ext d res =
     (case d2i_ASN1_SEQUENCE_ANY ext d of
        None \<Rightarrow> Inr (-1, res)
      | Some seq \<Rightarrow>
          if length seq \<noteq> 5 \<and> length seq \<noteq> 6 then Inr (-1, res)
          else if length seq = 6 then
            (case asn1_string (seq ! 0) of
               None \<Rightarrow> Inl Fault
             | Some d \<Rightarrow>
                 (case cms_econtent_version ext d of
                    None \<Rightarrow> Inr (-1, res)
                  | Some mft_version \<Rightarrow>
                      if mft_version = 0 then Inr (-1, res) else Inr (-1, res)))
          else (case seq ! 0 of
            V_INTEGER mft_seqnum \<Rightarrow>
              if BN_is_negative mft_seqnum then Inr (-1, res)
              else if BN_num_bytes mft_seqnum > 20 then Inr (-1, res)
              else (let res = res\<lparr>seqnum := Some (BN_bn2hex mft_seqnum)\<rparr> in
                case seq ! 1 of
                  V_GENERALIZEDTIME from \<Rightarrow>
                    (case seq ! 2 of
                       V_GENERALIZEDTIME until \<Rightarrow>
                         (let rc = check_validity ext from until in
                          if rc \<noteq> 1 then Inr (rc, res)
                          else (case seq ! 3 of
                            V_OBJECT obj \<Rightarrow>
                              if OBJ_obj2nid ext obj \<noteq> NID_sha256 then Inr (-1, res)
                              else (case seq ! 4 of
                                V_SEQUENCE os \<Rightarrow>
                                  (case mft_parse_flist ext res os of
                                     Inl e \<Rightarrow> Inl e
                                   | Inr (ok, res') \<Rightarrow>
                                       if ok = 0 then Inr (-1, res') else Inr (1, res'))
                              | _ \<Rightarrow> Inr (-1, res))
                          | _ \<Rightarrow> Inr (-1, res)))
                     | _ \<Rightarrow> Inr (-1, res))
                | _ \<Rightarrow> Inr (-1, res))
          | _ \<Rightarrow> Inr (-1, res)))"

subsection \<open>mft_parse\<close>

definition mft_oid :: "nat list" where
  "mft_oid = [1, 2, 840, 113549, 1, 9, 16, 1, 26]"

text \<open>
  The result is the returned pointer (\<open>None\<close> for NULL) and the certificate left in
  \<^verbatim>\<open>*x509\<close>.
\<close>

definition mft_parse ::
  "('x, 'tm) extern \<Rightarrow> string \<Rightarrow> fatal + (mft option \<times> 'x option)" where
  "mft_parse ext fn =
     (case cms_parse_validate ext fn mft_oid of
        None \<Rightarrow> Inr (None, None)
      | Some (cms, x509) \<Rightarrow>
     (case x509 of
        None \<Rightarrow> Inl Abort
      | Some x \<Rightarrow>
          (let res = calloc_mft\<lparr>mft_file := Some fn\<rparr>;
               res = res\<lparr>aia := x509_get_aia ext x\<rparr>;
               res = res\<lparr>aki := x509_get_aki ext x 0\<rparr>;
               res = res\<lparr>ski := x509_get_ski ext x\<rparr>
           in if aia res = None \<or> aki res = None \<or> ski res = None then Inr (None, None)
              else (case mft_parse_econtent ext cms res of
                Inl e \<Rightarrow> Inl e
              | Inr (c, res) \<Rightarrow>
                  if c = 0 then
                    Inr (Some (res\<lparr>stale := 1, filesz := 0, files := None\<rparr>), Some x)
                  else if c = -1 then Inr (None, None)
                  else Inr (Some res, Some x)))))"

subsection \<open>mft_check\<close>

text \<open>What \<^verbatim>\<open>%s\<close> prints for a string argument.\<close>

definition printf_s :: "string option \<Rightarrow> string" where
  "printf_s p = (case p of None \<Rightarrow> ''(null)'' | Some s \<Rightarrow> s)"

text \<open>
  The loop of \<open>mft_check\<close> from index \<open>i\<close> on; \<open>cp\<close> is the offset of the last slash
  of \<open>fn\<close>.  Besides \<open>rc\<close> the model returns the file names for which \<^verbatim>\<open>warnx\<close>
  has reported a bad message digest, in the order of the reports.
\<close>

function mft_check_loop ::
  "('x, 'tm) extern \<Rightarrow> string \<Rightarrow> nat \<Rightarrow> mft \<Rightarrow> nat \<Rightarrow> int \<Rightarrow> string list
     \<Rightarrow> fatal + (int \<times> string list)" where
  "mft_check_loop ext fn cp p i rc warned =
     (if i < filesz p then
        (case files p of
           None \<Rightarrow> Inl Fault
         | Some arr \<Rightarrow>
             if length arr \<le> i then Inl Fault
             else (let m = arr ! i;
                       path = take cp fn @ ''/'' @ printf_s (mf_file m)
                   in if \<not> valid_filehash ext path (mf_hash m) SHA256_DIGEST_LENGTH
                      then mft_check_loop ext fn cp p (Suc i) 0 (warned @ [printf_s (mf_file m)])
                      else mft_check_loop ext fn cp p (Suc i) rc warned))
      else Inr (rc, warned))"
  by pat_completeness auto
termination
  by (relation "measure (\<lambda>(ext, fn, cp, p, i, rc, warned). filesz p - i)") auto

declare mft_check_loop.simps [simp del]

definition mft_check ::
  "('x, 'tm) extern \<Rightarrow> string \<Rightarrow> mft \<Rightarrow> fatal + (int \<times> string list)" where
  "mft_check ext fn p =
     (case strrchr fn (CHR ''/'') of
        None \<Rightarrow> Inl Abort
      | Some cp \<Rightarrow>
          if \<not> cp < INT_MAX then Inl Abort
          else mft_check_loop ext fn cp p 0 1 [])"

subsection \<open>The byte stream between processes\<close>

text \<open>
  Modelled from the spec: the buffer and descriptor primitives \<^verbatim>\<open>io_simple_buffer\<close>,
  \<^verbatim>\<open>io_str_buffer\<close>, \<^verbatim>\<open>io_simple_read\<close> and \<^verbatim>\<open>io_str_read\<close> (io.c) are not among the
  sources.  The spec gives the wire layout: fixed-size fields are their bytes, a string
  is length-prefixed by a size field, and reading a stream shorter than declared fails
  loudly.  The spec also lets a required string arrive absent; a length prefix can say
  so only by being zero, hence a NULL pointer and the empty string are both written as
  length 0 and read back as NULL.  An \<^verbatim>\<open>int\<close> is four bytes and a \<^verbatim>\<open>size_t\<close> eight,
  least significant byte first.
\<close>

fun le_bytes :: "nat \<Rightarrow> nat \<Rightarrow> string" where
  "le_bytes 0 n = []"
| "le_bytes (Suc k) n = char_of (n mod 256) # le_bytes k (n div 256)"

fun le_value :: "string \<Rightarrow> nat" where
  "le_value [] = 0"
| "le_value (c # cs) = of_char c + 256 * le_value cs"

definition int_bytes :: "int \<Rightarrow> string" where
  "int_bytes i = le_bytes 4 (nat (i mod 2 ^ 32))"

definition bytes_int :: "string \<Rightarrow> int" where
  "bytes_int s = (let v = int (le_value s) in if v < 2 ^ 31 then v else v - 2 ^ 32)"

definition size_bytes :: "nat \<Rightarrow> string" where
  "size_bytes n = le_bytes 8 (n mod 2 ^ 64)"

text \<open>Modelled from the spec: \<^verbatim>\<open>io_simple_buffer\<close> (io.c) appends the bytes of a
  fixed-size field to the buffer.\<close>

definition io_simple_buffer :: "string \<Rightarrow> string \<Rightarrow> string" where
  "io_simple_buffer b bytes = b @ bytes"

text \<open>Modelled from the spec: \<^verbatim>\<open>io_str_buffer\<close> (io.c) appends a length-prefixed
  string: the size field, then the characters if there are any.\<close>

definition io_str_buffer :: "string \<Rightarrow> string option \<Rightarrow> string" where
  "io_str_buffer b p =
     (let s = (case p of None \<Rightarrow> [] | Some s \<Rightarrow> s);
          b = io_simple_buffer b (size_bytes (length s))
      in if length s > 0 then io_simple_buffer b s else b)"

text \<open>Modelled from the spec: \<^verbatim>\<open>io_simple_read\<close> (io.c) takes a fixed number of bytes
  from the stream and fails loudly when the stream is shorter.\<close>

definition io_simple_read :: "string \<Rightarrow> nat \<Rightarrow> fatal + (string \<times> string)" where
  "io_simple_read fd sz = (if length fd < sz then Inl Abort else Inr (take sz fd, drop sz fd))"

text \<open>Modelled from the spec: \<^verbatim>\<open>io_str_read\<close> (io.c) reads a length-prefixed string;
  length 0 is the absent string.\<close>

definition io_str_read :: "string \<Rightarrow> fatal + (string option \<times> string)" where
  "io_str_read fd =
     (case io_simple_read fd 8 of
        Inl e \<Rightarrow> Inl e
      | Inr (szb, fd) \<Rightarrow>
          (let sz = le_value szb in
           if sz = 0 then Inr (None, fd)
           else (case io_simple_read fd sz of
                   Inl e \<Rightarrow> Inl e
                 | Inr (s, fd) \<Rightarrow> Inr (Some s, fd))))"

subsection \<open>mft_buffer and mft_read\<close>

function mft_buffer_loop :: "string \<Rightarrow> mft \<Rightarrow> nat \<Rightarrow> fatal + string" where
  "mft_buffer_loop b p i =
     (if i < filesz p then
        (case files p of
           None \<Rightarrow> Inl Fault
         | Some arr \<Rightarrow>
             if length arr \<le> i then Inl Fault
             else (let b = io_str_buffer b (mf_file (arr ! i));
                       b = io_simple_buffer b (take SHA256_DIGEST_LENGTH (mf_hash (arr ! i)))
                   in mft_buffer_loop b p (Suc i)))
      else Inr b)"
  by pat_completeness auto
termination
  by (relation "measure (\<lambda>(b, p, i). filesz p - i)") auto

declare mft_buffer_loop.simps [simp del]

definition mft_buffer :: "string \<Rightarrow> mft \<Rightarrow> fatal + string" where
  "mft_buffer b p =
     (let b = io_simple_buffer b (int_bytes (stale p));
          b = io_str_buffer b (mft_file p);
          b = io_simple_buffer b (size_bytes (filesz p))
      in case mft_buffer_loop b p 0 of
           Inl e \<Rightarrow> Inl e
         | Inr b \<Rightarrow>
             (let b = io_str_buffer b (aia p);
                  b = io_str_buffer b (aki p);
                  b = io_str_buffer b (ski p)
              in Inr b))"

function mft_read_loop :: "string \<Rightarrow> mft \<Rightarrow> nat \<Rightarrow> fatal + (mft \<times> string)" where
  "mft_read_loop fd p i =
     (if i < filesz p then
        (case io_str_read fd of
           Inl e \<Rightarrow> Inl e
         | Inr (f, fd) \<Rightarrow>
        (case io_simple_read fd SHA256_DIGEST_LENGTH of
           Inl e \<Rightarrow> Inl e
         | Inr (h, fd) \<Rightarrow>
        (case files p of
           None \<Rightarrow> Inl Fault
         | Some arr \<Rightarrow>
             if length arr \<le> i then Inl Fault
             else mft_read_loop fd
                    (p\<lparr>files := Some (arr[i := \<lparr>mf_file = f, mf_hash = h\<rparr>])\<rparr>) (Suc i))))
      else Inr (p, fd))"
  by pat_completeness auto
termination
  by (relation "measure (\<lambda>(fd, p, i). filesz p - i)") auto

declare mft_read_loop.simps [simp del]

text \<open>The result is the manifest and what is left of the stream.\<close>

definition mft_read :: "string \<Rightarrow> fatal + (mft \<times> string)" where
  "mft_read fd =
     (case io_simple_read fd 4 of
        Inl e \<Rightarrow> Inl e
      | Inr (sb, fd) \<Rightarrow>
     (case io_str_read fd of
        Inl e \<Rightarrow> Inl e
      | Inr (f, fd) \<Rightarrow>
          if f = None then Inl Abort
          else
     (case io_simple_read fd 8 of
        Inl e \<Rightarrow> Inl e
      | Inr (nb, fd) \<Rightarrow>
          (let p = calloc_mft\<lparr>stale := bytes_int sb, mft_file := f, filesz := le_value nb\<rparr>;
               p = p\<lparr>files := Some (replicate (filesz p) calloc_mftfile)\<rparr>
           in
     (case mft_read_loop fd p 0 of
        Inl e \<Rightarrow> Inl e
      | Inr (p, fd) \<Rightarrow>
     (case io_str_read fd of
        Inl e \<Rightarrow> Inl e
      | Inr (a, fd) \<Rightarrow>
     (case io_str_read fd of
        Inl e \<Rightarrow> Inl e
      | Inr (k, fd) \<Rightarrow>
     (case io_str_read fd of
        Inl e \<Rightarrow> Inl e
      | Inr (s, fd) \<Rightarrow>
          (let p = p\<lparr>aia := a, aki := k, ski := s\<rparr>
           in if a = None \<or> k = None \<or> s = None then Inl Abort
              else Inr (p, fd))))))))))"

text \<open>The file entries of a manifest: the first \<open>filesz\<close> cells of its array.\<close>

definition entries :: "mft \<Rightarrow> mftfile list" where
  "entries p = (case files p of None \<Rightarrow> [] | Some arr \<Rightarrow> take (filesz p) arr)"

subsection \<open>The time window in the words of the specification\<close>

text \<open>
  A time parses into calendar form when \<open>ASN1_time_parse\<close> answers that it has read a
  generalized time; the calendar form is what it has filled in.
\<close>

definition time_parses :: "('x, 'tm) extern \<Rightarrow> string \<Rightarrow> bool" where
  "time_parses ext t =
     (fst (ASN1_time_parse ext t (length t) V_ASN1_GENERALIZEDTIME) = V_ASN1_GENERALIZEDTIME)"

definition calendar :: "('x, 'tm) extern \<Rightarrow> string \<Rightarrow> 'tm" where
  "calendar ext t = snd (ASN1_time_parse ext t (length t) V_ASN1_GENERALIZEDTIME)"

text \<open>
  For a current time in calendar form: the window is invalid when either time fails to
  parse, or valid-until precedes valid-from, or valid-from is later than the current
  time; it has expired when valid-until precedes the current time.
\<close>

definition window_invalid :: "('x, 'tm) extern \<Rightarrow> 'tm \<Rightarrow> string \<Rightarrow> string \<Rightarrow> bool" where
  "window_invalid ext tm_now from until =
     (\<not> time_parses ext from \<or> \<not> time_parses ext until
      \<or> ASN1_time_tm_cmp ext (calendar ext until) (calendar ext from) < 0
      \<or> ASN1_time_tm_cmp ext (calendar ext from) tm_now > 0)"

definition window_expired :: "('x, 'tm) extern \<Rightarrow> 'tm \<Rightarrow> string \<Rightarrow> bool" where
  "window_expired ext tm_now until =
     (time_parses ext until \<and> ASN1_time_tm_cmp ext (calendar ext until) tm_now < 0)"

subsection \<open>A concrete environment\<close>

text \<open>
  An instance of the collaborators on which the functions can be run: calendar times
  are seconds since the epoch, the certificate is a number, and the DER decoder knows
  the encodings of one manifest \<open>mf\<close>, of a list of two files and of its two entries.
\<close>

definition sha256_oid :: "nat list" where
  "sha256_oid = [2, 16, 840, 1, 101, 3, 4, 2, 1]"

definition demo_time :: "string \<Rightarrow> int \<times> int" where
  "demo_time s =
     (if s = ''20210101000000Z'' then (24, 1609459200)
      else if s = ''20210131000000Z'' then (24, 1612051200)
      else (-1, 0))"

definition demo_d2i :: "ASN1_TYPE list \<Rightarrow> string \<Rightarrow> ASN1_TYPE list option" where
  "demo_d2i mf s =
     (if s = ''mft'' then Some mf
      else if s = ''list'' then Some [V_SEQUENCE ''fh1'', V_SEQUENCE ''fh2'']
      else if s = ''fh1'' then
        Some [V_IA5STRING ''aaaaa.cer'', V_BIT_STRING (replicate 32 (CHR ''A''))]
      else if s = ''fh2'' then
        Some [V_IA5STRING ''bbbbb.roa'', V_BIT_STRING (replicate 32 (CHR ''B''))]
      else None)"

definition demo_ext :: "int \<Rightarrow> ASN1_TYPE list \<Rightarrow> (nat, int) extern" where
  "demo_ext now mf = \<lparr>
     d2i_ASN1_SEQUENCE_ANY = demo_d2i mf,
     cms_econtent_version = (\<lambda>d. case d of [c] \<Rightarrow> Some (of_char c) | _ \<Rightarrow> None),
     OBJ_obj2nid = (\<lambda>obj. if obj = sha256_oid then NID_sha256 else 0),
     time_NULL = now,
     gmtime_r = (\<lambda>t. Some t),
     ASN1_time_parse = (\<lambda>data len mode. demo_time (take len data)),
     ASN1_time_tm_cmp = (\<lambda>a b. if a < b then -1 else if a > b then 1 else 0),
     cms_parse_validate =
       (\<lambda>fn oid. if fn = ''repo/ca/a.mft'' \<and> oid = mft_oid then Some (''mft'', Some 7) else None),
     x509_get_aia = (\<lambda>x. Some ''rsync://h/ca.cer''),
     x509_get_aki = (\<lambda>x ta. Some ''AA:BB''),
     x509_get_ski = (\<lambda>x. Some ''CC:DD''),
     valid_filehash = (\<lambda>path h n. path = ''repo/ca/aaaaa.cer'' \<and> take n h = replicate 32 (CHR ''A''))\<rparr>"

text \<open>A manifest of five elements with sequence number \<open>n\<close>, valid through January 2021.\<close>

definition demo_mft :: "int \<Rightarrow> ASN1_TYPE list" where
  "demo_mft n = [V_INTEGER n, V_GENERALIZEDTIME ''20210101000000Z'',
     V_GENERALIZEDTIME ''20210131000000Z'', V_OBJECT sha256_oid, V_SEQUENCE ''list'']"

text \<open>10 January 2021 and 1 February 2021.\<close>

definition demo_now :: int where "demo_now = 1610236800"
definition demo_later :: int where "demo_later = 1612137600"

text \<open>The manifest that the concrete environment yields at \<open>demo_now\<close> for sequence number 1.\<close>

definition demo_parsed :: mft where
  "demo_parsed = \<lparr>mft_file = Some ''repo/ca/a.mft'',
     files = Some [\<lparr>mf_file = Some ''aaaaa.cer'', mf_hash = replicate 32 (CHR ''A'')\<rparr>,
                   \<lparr>mf_file = Some ''bbbbb.roa'', mf_hash = replicate 32 (CHR ''B'')\<rparr>],
     filesz = 2, stale = 0, seqnum = Some ''01'', aia = Some ''rsync://h/ca.cer'',
     aki = Some ''AA:BB'', ski = Some ''CC:DD''\<rparr>"

text \<open>Sequence numbers of 20 and of 21 octets.\<close>

definition demo_seq20 :: int where "demo_seq20 = 2 ^ 159 + 10"
definition demo_seq21 :: int where "demo_seq21 = 2 ^ 160"

text \<open>The stale manifest that the concrete environment yields at \<open>demo_later\<close> for
  sequence number 255.\<close>

definition demo_stale :: mft where
  "demo_stale = demo_parsed\<lparr>files := None, filesz := 0, stale := 1,
     seqnum := Some (BN_bn2hex 255)\<rparr>"

subsection \<open>Well-formed entries\<close>

text \<open>
  What the file list decoder establishes for an entry it has stored, and for the part
  of the array filled so far.
\<close>

definition entry_ok :: "mftfile \<Rightarrow> bool" where
  "entry_ok e = (length (mf_hash e) = SHA256_DIGEST_LENGTH \<and>
     (case mf_file e of None \<Rightarrow> False
      | Some n \<Rightarrow> CHR ''/'' \<notin> set n \<and> 4 < length n \<and> CHR 0x00 \<notin> set n))"

definition filled :: "mft \<Rightarrow> bool" where
  "filled p = (case files p of None \<Rightarrow> False
     | Some arr \<Rightarrow> filesz p \<le> length arr \<and> (\<forall>e \<in> set (take (filesz p) arr). entry_ok e))"

subsection \<open>The digest comparison of one entry\<close>

text \<open>
  What \<open>mft_check\<close> asks \<open>valid_filehash\<close> about an entry: the path is the directory
  part of \<open>fn\<close> (its first \<open>cp\<close> characters), a slash and the file name.
\<close>

definition digest_matches :: "('x, 'tm) extern \<Rightarrow> string \<Rightarrow> nat \<Rightarrow> mftfile \<Rightarrow> bool" where
  "digest_matches ext fn cp e =
     valid_filehash ext (take cp fn @ ''/'' @ printf_s (mf_file e)) (mf_hash e)
       SHA256_DIGEST_LENGTH"

text \<open>The array of a manifest holds at least \<open>filesz\<close> cells.\<close>

definition array_ok :: "mft \<Rightarrow> bool" where
  "array_ok p = (case files p of None \<Rightarrow> filesz p = 0 | Some arr \<Rightarrow> filesz p \<le> length arr)"

subsection \<open>Manifests that fit the wire format\<close>

text \<open>
  A string can cross the stream when it is present, not empty (an empty string is read
  back as NULL) and its length fits the size field.
\<close>

definition str_ok :: "string option \<Rightarrow> bool" where
  "str_ok p = (case p of None \<Rightarrow> False | Some s \<Rightarrow> s \<noteq> [] \<and> length s < 2 ^ 64)"

text \<open>The bytes of one entry on the stream.\<close>

definition entry_bytes :: "mftfile \<Rightarrow> string" where
  "entry_bytes e = io_str_buffer [] (mf_file e) @ take SHA256_DIGEST_LENGTH (mf_hash e)"

definition wire_ok :: "mft \<Rightarrow> bool" where
  "wire_ok m = (- (2 ^ 31) \<le> stale m \<and> stale m < 2 ^ 31 \<and> array_ok m \<and> filesz m < 2 ^ 64
     \<and> str_ok (mft_file m) \<and> str_ok (aia m) \<and> str_ok (aki m) \<and> str_ok (ski m)
     \<and> (\<forall>e \<in> set (entries m).
           str_ok (mf_file e) \<and> length (mf_hash e) = SHA256_DIGEST_LENGTH))"

text \<open>
  The part of that which the content decoder does not establish by itself: the path
  and the three certificate strings are not empty, and the entry count and all string
  lengths fit a \<^verbatim>\<open>size_t\<close>.
\<close>

definition fits_wire :: "mft \<Rightarrow> bool" where
  "fits_wire m = (filesz m < 2 ^ 64
     \<and> str_ok (mft_file m) \<and> str_ok (aia m) \<and> str_ok (aki m) \<and> str_ok (ski m)
     \<and> (\<forall>e \<in> set (entries m).
           case mf_file e of None \<Rightarrow> True | Some n \<Rightarrow> length n < 2 ^ 64))"

text \<open>Encode a manifest into an empty buffer and decode the stream, followed by \<open>rest\<close>.\<close>

definition mft_roundtrip :: "mft \<Rightarrow> string \<Rightarrow> fatal + (mft \<times> string)" where
  "mft_roundtrip m rest =
     (case mft_buffer [] m of Inl e \<Rightarrow> Inl e | Inr b \<Rightarrow> mft_read (b @ rest))"

subsection \<open>Getting to the file list\<close>

text \<open>
  The conditions under which \<open>mft_parse\<close> on the file \<open>fn\<close> comes to decode the
  elements \<open>seq\<close> of the file list: the envelope yields the content \<open>cms\<close> and a
  certificate \<open>x\<close> with the three extensions, the content has five elements, with an
  admissible sequence number \<open>n\<close>, a current time window, SHA-256 as digest algorithm
  and a file list \<open>l\<close> that is a sequence of the elements \<open>seq\<close>.
\<close>

definition file_list_reached ::
  "('x, 'tm) extern \<Rightarrow> string \<Rightarrow> string \<Rightarrow> 'x \<Rightarrow> int \<Rightarrow> string \<Rightarrow> string \<Rightarrow> nat list
     \<Rightarrow> string \<Rightarrow> ASN1_TYPE list \<Rightarrow> bool" where
  "file_list_reached ext fn cms x n from until obj l seq =
     (cms_parse_validate ext fn mft_oid = Some (cms, Some x)
      \<and> x509_get_aia ext x \<noteq> None \<and> x509_get_aki ext x 0 \<noteq> None \<and> x509_get_ski ext x \<noteq> None
      \<and> d2i_ASN1_SEQUENCE_ANY ext cms =
           Some [V_INTEGER n, V_GENERALIZEDTIME from, V_GENERALIZEDTIME until, V_OBJECT obj,
                 V_SEQUENCE l]
      \<and> 0 \<le> n \<and> BN_num_bytes n \<le> 20
      \<and> check_validity ext from until = 1
      \<and> OBJ_obj2nid ext obj = NID_sha256
      \<and> d2i_ASN1_SEQUENCE_ANY ext l = Some seq)"

text \<open>The concrete environment at \<open>demo_now\<close> with another second entry of the file list.\<close>

definition demo_ext_entry :: "ASN1_TYPE list \<Rightarrow> (nat, int) extern" where
  "demo_ext_entry e = (demo_ext demo_now (demo_mft 1))\<lparr>d2i_ASN1_SEQUENCE_ANY :=
     (\<lambda>s. if s = ''fh2'' then Some e else demo_d2i (demo_mft 1) s)\<rparr>"

section \<open>Properties\<close>

subsection \<open>Fields that the content decoder leaves alone\<close>

lemma filehash_keeps:
  "mft_parse_filehash ext res os = Inr (rc, res') \<Longrightarrow>
     stale res' = stale res \<and> seqnum res' = seqnum res \<and> mft_file res' = mft_file res
     \<and> aia res' = aia res \<and> aki res' = aki res \<and> ski res' = ski res"
  by (auto simp: mft_parse_filehash_def Let_def split: option.splits if_splits ASN1_TYPE.splits)

lemma flist_loop_keeps:
  "flist_loop ext ts res = Inr (rc, res') \<Longrightarrow>
     stale res' = stale res \<and> seqnum res' = seqnum res \<and> mft_file res' = mft_file res
     \<and> aia res' = aia res \<and> aki res' = aki res \<and> ski res' = ski res"
proof (induction ts arbitrary: res)
  case Nil
  then show ?case by simp
next
  case (Cons t ts)
  show ?case
  proof (cases t)
    case (V_SEQUENCE os)
    show ?thesis
    proof (cases "mft_parse_filehash ext res os")
      case (Inl e)
      with Cons.prems V_SEQUENCE show ?thesis by simp
    next
      case (Inr r)
      obtain rc1 res1 where r: "r = (rc1, res1)" by (cases r)
      note k = filehash_keeps [OF Inr [unfolded r]]
      show ?thesis
      proof (cases "rc1 = 0")
        case True
        with Cons.prems V_SEQUENCE Inr r k show ?thesis by simp
      next
        case False
        with Cons.prems V_SEQUENCE Inr r have "flist_loop ext ts res1 = Inr (rc, res')" by simp
        from Cons.IH [OF this] k show ?thesis by simp
      qed
    qed
  qed (use Cons.prems in simp_all)
qed

lemma flist_keeps:
  "mft_parse_flist ext res os = Inr (rc, res') \<Longrightarrow>
     stale res' = stale res \<and> seqnum res' = seqnum res \<and> mft_file res' = mft_file res
     \<and> aia res' = aia res \<and> aki res' = aki res \<and> ski res' = ski res"
  by (auto simp: mft_parse_flist_def split: option.splits dest!: flist_loop_keeps)

lemma econtent_keeps:
  "mft_parse_econtent ext d res = Inr (rc, res') \<Longrightarrow>
     stale res' = stale res \<and> mft_file res' = mft_file res
     \<and> aia res' = aia res \<and> aki res' = aki res \<and> ski res' = ski res"
  by (auto simp: mft_parse_econtent_def Let_def
      split: option.splits if_splits ASN1_TYPE.splits sum.splits dest!: flist_keeps)

subsection \<open>What the file list decoder establishes\<close>

lemma check_validity_range:
  "check_validity ext f u = -1 \<or> check_validity ext f u = 0 \<or> check_validity ext f u = 1"
  by (simp add: check_validity_def split: option.splits)

lemma check_validity_cases:
  "check_validity ext f u \<noteq> 1 \<Longrightarrow> check_validity ext f u = -1 \<or> check_validity ext f u = 0"
  using check_validity_range [of ext f u] by blast


lemma strndup_no_nul: "CHR 0x00 \<notin> set (strndup s n)"
  unfolding strndup_def by (auto dest: set_takeWhileD)

lemma filehash_filled:
  assumes "mft_parse_filehash ext res os = Inr (rc, res')" and "rc \<noteq> 0" and "filled res"
  shows "filled res' \<and> filesz res' = Suc (filesz res) \<and>
    (\<exists>arr arr'. files res = Some arr \<and> files res' = Some arr' \<and> length arr' = length arr)"
proof -
  from assms(3) obtain arr where arr: "files res = Some arr" "filesz res \<le> length arr"
    and ok: "\<forall>e \<in> set (take (filesz res) arr). entry_ok e"
    by (auto simp: filled_def split: option.splits)
  from assms(1,2) arr obtain ia5 bits where
    lt: "filesz res < length arr"
    and nm: "CHR ''/'' \<notin> set (strndup ia5 (length ia5))" "4 < length (strndup ia5 (length ia5))"
    and bl: "length bits = SHA256_DIGEST_LENGTH"
    and r: "res' = res\<lparr>files := Some (arr[filesz res :=
              \<lparr>mf_file = Some (strndup ia5 (length ia5)),
               mf_hash = take SHA256_DIGEST_LENGTH bits\<rparr>]), filesz := Suc (filesz res)\<rparr>"
    by (auto simp: mft_parse_filehash_def Let_def
        split: option.splits if_splits ASN1_TYPE.splits)
  let ?e = "\<lparr>mf_file = Some (strndup ia5 (length ia5)), mf_hash = take SHA256_DIGEST_LENGTH bits\<rparr>"
  have e: "entry_ok ?e" using nm bl by (simp add: entry_ok_def strndup_no_nul)
  have "take (Suc (filesz res)) (arr[filesz res := ?e]) = take (filesz res) arr @ [?e]"
    using lt by (simp add: take_Suc_conv_app_nth)
  with ok e have "\<forall>x \<in> set (take (Suc (filesz res)) (arr[filesz res := ?e])). entry_ok x"
    by auto
  with lt r arr show ?thesis by (simp add: filled_def)
qed

lemma flist_loop_filled:
  assumes "flist_loop ext ts res = Inr (rc, res')" and "rc \<noteq> 0" and "filled res"
  shows "filled res' \<and> filesz res' = filesz res + length ts \<and>
    (\<exists>arr arr'. files res = Some arr \<and> files res' = Some arr' \<and> length arr' = length arr)"
  using assms
proof (induction ts arbitrary: res)
  case Nil
  then show ?case by (auto simp: filled_def split: option.splits)
next
  case (Cons t ts)
  from Cons.prems(1,2) obtain os where t: "t = V_SEQUENCE os"
    by (cases t) auto
  from Cons.prems(1,2) t obtain rc1 res1 where
    fh: "mft_parse_filehash ext res os = Inr (rc1, res1)" and rc1: "rc1 \<noteq> 0"
    and rest: "flist_loop ext ts res1 = Inr (rc, res')"
    by (auto split: sum.splits if_splits)
  from filehash_filled [OF fh rc1 Cons.prems(3)] Cons.IH [OF rest Cons.prems(2)]
  show ?case by auto
qed

lemma flist_filled:
  assumes "mft_parse_flist ext res os = Inr (rc, res')" and "rc \<noteq> 0" and "filesz res = 0"
  shows "\<exists>arr. files res' = Some arr \<and> filesz res' = length arr \<and> (\<forall>e \<in> set arr. entry_ok e)"
proof -
  from assms(1,2) obtain seq where
    l: "flist_loop ext seq (res\<lparr>files := Some (replicate (length seq) calloc_mftfile)\<rparr>) = Inr (rc, res')"
    by (auto simp: mft_parse_flist_def split: option.splits)
  have "filled (res\<lparr>files := Some (replicate (length seq) calloc_mftfile)\<rparr>)"
    using assms(3) by (simp add: filled_def)
  from flist_loop_filled [OF l assms(2) this] assms(3)
  show ?thesis by (auto simp: filled_def)
qed

lemma econtent_filled:
  assumes "mft_parse_econtent ext d res = Inr (rc, res')" and "rc \<noteq> 0" and "rc \<noteq> -1"
    and "filesz res = 0"
  shows "\<exists>arr n. files res' = Some arr \<and> filesz res' = length arr \<and> (\<forall>e \<in> set arr. entry_ok e)
     \<and> seqnum res' = Some (BN_bn2hex n) \<and> 0 \<le> n \<and> BN_num_bytes n \<le> 20"
proof -
  from assms(1,2,3) obtain n os ok where
    fl: "mft_parse_flist ext (res\<lparr>seqnum := Some (BN_bn2hex n)\<rparr>) os = Inr (ok, res')"
    and ok: "ok \<noteq> 0" and n: "0 \<le> n" "BN_num_bytes n \<le> 20"
    by (auto simp: mft_parse_econtent_def Let_def BN_is_negative_def
        split: option.splits if_splits ASN1_TYPE.splits sum.splits dest: check_validity_cases)
  from flist_filled [OF fl ok] flist_keeps [OF fl] assms(4) n show ?thesis by auto
qed

lemma econtent_stale:
  assumes "mft_parse_econtent ext d res = Inr (0, res')"
  shows "\<exists>n. res' = res\<lparr>seqnum := Some (BN_bn2hex n)\<rparr> \<and> 0 \<le> n \<and> BN_num_bytes n \<le> 20"
  using assms
  by (auto simp: mft_parse_econtent_def Let_def BN_is_negative_def
      split: option.splits if_splits ASN1_TYPE.splits sum.splits)

lemma mft_parse_result:
  assumes "mft_parse ext fn = Inr (Some m, x)"
  shows "mft_file m = Some fn \<and> aia m \<noteq> None \<and> aki m \<noteq> None \<and> ski m \<noteq> None
    \<and> (\<exists>n. seqnum m = Some (BN_bn2hex n) \<and> 0 \<le> n \<and> BN_num_bytes n \<le> 20)
    \<and> (stale m = 1 \<and> files m = None \<and> filesz m = 0
       \<or> stale m = 0 \<and> (\<exists>arr. files m = Some arr \<and> filesz m = length arr
            \<and> (\<forall>e \<in> set arr. entry_ok e)))"
proof -
  from assms obtain cms x0 where cv: "cms_parse_validate ext fn mft_oid = Some (cms, Some x0)"
    by (auto simp: mft_parse_def split: option.splits)
  define res0 where "res0 = calloc_mft\<lparr>mft_file := Some fn, aia := x509_get_aia ext x0,
     aki := x509_get_aki ext x0 0, ski := x509_get_ski ext x0\<rparr>"
  from assms cv have present: "aia res0 \<noteq> None" "aki res0 \<noteq> None" "ski res0 \<noteq> None"
    by (auto simp: mft_parse_def Let_def res0_def split: if_splits)
  from assms cv present obtain c res1 where
    ec: "mft_parse_econtent ext cms res0 = Inr (c, res1)" and c: "c \<noteq> -1"
    and m: "m = (if c = 0 then res1\<lparr>stale := 1, filesz := 0, files := None\<rparr> else res1)"
    by (auto simp: mft_parse_def Let_def res0_def split: if_splits sum.splits)
  have z: "filesz res0 = 0" "stale res0 = 0" "mft_file res0 = Some fn"
    by (simp_all add: res0_def calloc_mft_def)
  note k = econtent_keeps [OF ec]
  show ?thesis
  proof (cases "c = 0")
    case True
    from econtent_stale [OF ec [unfolded True]] m True k z present show ?thesis by auto
  next
    case False
    from econtent_filled [OF ec False c z(1)] m False k z present show ?thesis by auto
  qed
qed

subsection \<open>One rejected entry fails the list and the manifest\<close>

lemma filehash_no_fault:
  assumes "files res = Some arr" and "filesz res < length arr"
  shows "\<exists>rc res'. mft_parse_filehash ext res os = Inr (rc, res')"
  using assms
  by (auto simp: mft_parse_filehash_def Let_def split: option.splits ASN1_TYPE.splits)

lemma filehash_step:
  assumes "mft_parse_filehash ext res os = Inr (rc, res')" and "rc \<noteq> 0"
    and "files res = Some arr"
  shows "\<exists>arr'. files res' = Some arr' \<and> length arr' = length arr
           \<and> filesz res' = Suc (filesz res)"
  using assms
  by (auto simp: mft_parse_filehash_def Let_def
      split: option.splits if_splits ASN1_TYPE.splits)

lemma flist_loop_rejects:
  assumes "V_SEQUENCE os \<in> set ts" and "\<And>r. mft_parse_filehash ext r os = Inr (0, r)"
    and "files res = Some arr" and "filesz res + length ts \<le> length arr"
  shows "\<exists>res'. flist_loop ext ts res = Inr (0, res')"
  using assms(1,3,4)
proof (induction ts arbitrary: res arr)
  case Nil
  then show ?case by simp
next
  case (Cons t ts)
  show ?case
  proof (cases t)
    case (V_SEQUENCE o2)
    from Cons.prems(3) have room: "filesz res < length arr" by simp
    from filehash_no_fault [OF Cons.prems(2) room, of ext o2]
    obtain rc res1 where fh: "mft_parse_filehash ext res o2 = Inr (rc, res1)" by blast
    show ?thesis
    proof (cases "rc = 0")
      case True
      with V_SEQUENCE fh show ?thesis by simp
    next
      case False
      with fh assms(2) [of res] have "o2 \<noteq> os" by auto
      with Cons.prems(1) V_SEQUENCE have mem: "V_SEQUENCE os \<in> set ts" by simp
      from filehash_step [OF fh False Cons.prems(2)] obtain arr1 where
        a1: "files res1 = Some arr1" "length arr1 = length arr" "filesz res1 = Suc (filesz res)"
        by blast
      with Cons.prems(3) have "filesz res1 + length ts \<le> length arr1" by simp
      from Cons.IH [OF mem a1(1) this] V_SEQUENCE fh False show ?thesis by simp
    qed
  qed simp_all
qed

lemma flist_rejects:
  assumes "d2i_ASN1_SEQUENCE_ANY ext l = Some seq" and "V_SEQUENCE os \<in> set seq"
    and "\<And>r. mft_parse_filehash ext r os = Inr (0, r)" and "filesz res = 0"
  shows "\<exists>res'. mft_parse_flist ext res l = Inr (0, res')"
proof -
  let ?r = "res\<lparr>files := Some (replicate (length seq) calloc_mftfile)\<rparr>"
  have "\<exists>res'. flist_loop ext seq ?r = Inr (0, res')"
    using assms(4)
    by (intro flist_loop_rejects [OF assms(2,3), of ?r "replicate (length seq) calloc_mftfile"])
      simp_all
  with assms(1) show ?thesis by (simp add: mft_parse_flist_def)
qed

lemma mft_parse_rejects:
  assumes "file_list_reached ext fn cms x n from until obj l seq"
    and "V_SEQUENCE os \<in> set seq" and "\<And>r. mft_parse_filehash ext r os = Inr (0, r)"
  shows "mft_parse ext fn = Inr (None, None)"
proof -
  let ?r = "calloc_mft\<lparr>mft_file := Some fn, aia := x509_get_aia ext x,
     aki := x509_get_aki ext x 0, ski := x509_get_ski ext x, seqnum := Some (BN_bn2hex n)\<rparr>"
  from assms(1) have d: "d2i_ASN1_SEQUENCE_ANY ext l = Some seq"
    by (simp add: file_list_reached_def)
  have "filesz ?r = 0" by (simp add: calloc_mft_def)
  from flist_rejects [OF d assms(2,3) this] obtain res' where
    "mft_parse_flist ext ?r l = Inr (0, res')" by blast
  with assms(1) show ?thesis
    by (simp add: file_list_reached_def mft_parse_def mft_parse_econtent_def Let_def
        BN_is_negative_def)
qed

subsection \<open>Running the model on the concrete environment\<close>

lemmas demo_eval = demo_ext_def demo_d2i_def demo_mft_def demo_time_def demo_now_def
  demo_later_def sha256_oid_def mft_oid_def NID_sha256_def SHA256_DIGEST_LENGTH_def
  V_ASN1_GENERALIZEDTIME_def calloc_mft_def calloc_mftfile_def mft_parse_def
  mft_parse_econtent_def mft_parse_flist_def mft_parse_filehash_def check_validity_def
  generalizedtime_to_tm_def BN_is_negative_def strndup_def entries_def Let_def
  window_invalid_def window_expired_def time_parses_def calendar_def

lemma demo_num_bytes_255: "BN_num_bytes 255 = 1"
  by code_simp

lemma demo_parse_valid:
  "mft_parse (demo_ext demo_now (demo_mft 1)) ''repo/ca/a.mft'' = Inr (Some demo_parsed, Some 7)"
  by (simp add: demo_eval demo_parsed_def BN_num_bytes_def BN_num_bits_def num_bits.simps
      BN_bn2hex_def be_bytes.simps hex_byte_def Hex_def)

lemma demo_parse_stale:
  "mft_parse (demo_ext demo_later (demo_mft 255)) ''repo/ca/a.mft'' = Inr (Some demo_stale, Some 7)"
  using demo_num_bytes_255 by (simp add: demo_eval demo_parsed_def demo_stale_def)

lemma demo_fits:
  "fits_wire demo_parsed" "fits_wire demo_stale"
  by (simp_all add: fits_wire_def demo_parsed_def demo_stale_def str_ok_def entries_def)

lemma demo_entry_reached:
  "file_list_reached (demo_ext_entry e) ''repo/ca/a.mft'' ''mft'' 7 1 ''20210101000000Z''
     ''20210131000000Z'' sha256_oid ''list'' [V_SEQUENCE ''fh1'', V_SEQUENCE ''fh2'']"
  by (simp add: file_list_reached_def demo_ext_entry_def demo_eval BN_num_bytes_def
      BN_num_bits_def num_bits.simps)

subsection \<open>The stale path\<close>

lemma stale_parse:
  assumes "cms_parse_validate ext fn mft_oid = Some (cms, Some x0)"
    and "x509_get_aia ext x0 \<noteq> None" "x509_get_aki ext x0 0 \<noteq> None" "x509_get_ski ext x0 \<noteq> None"
    and "d2i_ASN1_SEQUENCE_ANY ext cms =
           Some [V_INTEGER n, V_GENERALIZEDTIME from, V_GENERALIZEDTIME until, alg, fl]"
    and "0 \<le> n" "BN_num_bytes n \<le> 20"
    and "check_validity ext from until = 0"
  shows "mft_parse ext fn =
     Inr (Some (calloc_mft\<lparr>mft_file := Some fn, aia := x509_get_aia ext x0,
                  aki := x509_get_aki ext x0 0, ski := x509_get_ski ext x0,
                  seqnum := Some (BN_bn2hex n), stale := 1, filesz := 0, files := None\<rparr>),
          Some x0)"
  using assms
  by (simp add: mft_parse_def mft_parse_econtent_def Let_def BN_is_negative_def)

lemma check_validity_stale:
  assumes "gmtime_r ext (time_NULL ext) = Some tm_now"
    and "\<not> window_invalid ext tm_now from until" and "window_expired ext tm_now until"
  shows "check_validity ext from until = 0"
  using assms
  by (auto simp: check_validity_def window_invalid_def window_expired_def time_parses_def
      calendar_def generalizedtime_to_tm_def split: option.splits prod.splits if_splits)

subsection \<open>The loop of the digest verifier\<close>

lemma mft_check_loop_eq:
  assumes "files p = Some arr" and "filesz p \<le> length arr" and "i \<le> filesz p"
  shows "mft_check_loop ext fn cp p i rc warned =
     Inr (if \<forall>e \<in> set (drop i (take (filesz p) arr)). digest_matches ext fn cp e then rc else 0,
          warned @ map (\<lambda>e. printf_s (mf_file e))
                     (filter (\<lambda>e. \<not> digest_matches ext fn cp e) (drop i (take (filesz p) arr))))"
  using assms(3)
proof (induction "filesz p - i" arbitrary: i rc warned)
  case 0
  then have "i = filesz p" by simp
  then show ?case by (simp add: mft_check_loop.simps)
next
  case (Suc k)
  then have lt: "i < filesz p" by simp
  with assms(2) have il: "i < length arr" by simp
  have d: "drop i (take (filesz p) arr) = arr ! i # drop (Suc i) (take (filesz p) arr)"
    using lt il by (simp add: Cons_nth_drop_Suc [symmetric])
  have k: "k = filesz p - Suc i" using Suc.hyps(2) by simp
  have le: "Suc i \<le> filesz p" using lt by simp
  note ih = Suc.hyps(1) [OF k le]
  show ?case
  proof (cases "digest_matches ext fn cp (arr ! i)")
    case True
    then have "mft_check_loop ext fn cp p i rc warned = mft_check_loop ext fn cp p (Suc i) rc warned"
      using lt il assms(1)
      by (subst mft_check_loop.simps) (simp add: digest_matches_def Let_def)
    then show ?thesis using True by (simp add: ih d)
  next
    case False
    then have "mft_check_loop ext fn cp p i rc warned =
        mft_check_loop ext fn cp p (Suc i) 0 (warned @ [printf_s (mf_file (arr ! i))])"
      using lt il assms(1)
      by (subst mft_check_loop.simps) (simp add: digest_matches_def Let_def)
    then show ?thesis using False by (simp add: ih d)
  qed
qed

subsection \<open>Big numbers: size in bytes and hexadecimal form\<close>

lemma hex_digit_Hex: "k < 16 \<Longrightarrow> hex_digit (Hex ! k) = k"
proof -
  assume "k < 16"
  then have "k = 0 \<or> k = 1 \<or> k = 2 \<or> k = 3 \<or> k = 4 \<or> k = 5 \<or> k = 6 \<or> k = 7
      \<or> k = 8 \<or> k = 9 \<or> k = 10 \<or> k = 11 \<or> k = 12 \<or> k = 13 \<or> k = 14 \<or> k = 15"
    by arith
  then show ?thesis
    by (elim disjE) (simp_all add: Hex_def hex_digit_def)
qed

lemma hex_value_byte:
  assumes "v < 256"
  shows "hex_value (s @ hex_byte v) = 256 * hex_value s + v"
proof -
  have a: "v div 16 < 16" using assms by simp
  have b: "v mod 16 < 16" by simp
  have "hex_value (s @ hex_byte v) = 16 * (16 * hex_value s + v div 16) + v mod 16"
    by (simp add: hex_value_def hex_byte_def hex_digit_Hex [OF a] hex_digit_Hex [OF b])
  then show ?thesis by simp
qed

lemma hex_value_be_bytes: "hex_value (concat (map hex_byte (be_bytes n))) = n"
proof (induction n rule: be_bytes.induct)
  case (1 n)
  show ?case
  proof (cases "n = 0")
    case True
    then show ?thesis by (simp add: be_bytes.simps hex_value_def)
  next
    case False
    then have "be_bytes n = be_bytes (n div 256) @ [n mod 256]"
      by (subst be_bytes.simps) simp
    then have "hex_value (concat (map hex_byte (be_bytes n)))
        = 256 * hex_value (concat (map hex_byte (be_bytes (n div 256)))) + n mod 256"
      by (simp add: hex_value_byte)
    with 1 False show ?thesis by simp
  qed
qed

lemma hex_value_bn2hex: "0 \<le> n \<Longrightarrow> int (hex_value (BN_bn2hex n)) = n"
  by (cases "n = 0")
    (simp_all add: BN_bn2hex_def hex_value_be_bytes, simp add: hex_value_def hex_digit_def Hex_def)

lemma num_bits_le: "num_bits n \<le> b \<longleftrightarrow> n < 2 ^ b"
proof (induction b arbitrary: n)
  case 0
  show ?case by (subst num_bits.simps) auto
next
  case (Suc b)
  show ?case
  proof (cases "n = 0")
    case True
    then show ?thesis by (subst num_bits.simps) simp
  next
    case False
    then have "num_bits n = Suc (num_bits (n div 2))" by (subst num_bits.simps) simp
    then have "num_bits n \<le> Suc b \<longleftrightarrow> n div 2 < 2 ^ b" using Suc [of "n div 2"] by simp
    also have "\<dots> \<longleftrightarrow> n < 2 ^ Suc b" by (simp add: div_less_iff_less_mult mult.commute)
    finally show ?thesis .
  qed
qed

lemma BN_num_bytes_le: "BN_num_bytes n \<le> k \<longleftrightarrow> \<bar>n\<bar> < 2 ^ (8 * k)"
proof -
  have "BN_num_bytes n \<le> k \<longleftrightarrow> num_bits (nat \<bar>n\<bar>) \<le> 8 * k"
    by (auto simp: BN_num_bytes_def BN_num_bits_def)
  also have "\<dots> \<longleftrightarrow> nat \<bar>n\<bar> < 2 ^ (8 * k)" by (rule num_bits_le)
  also have "\<dots> \<longleftrightarrow> \<bar>n\<bar> < 2 ^ (8 * k)"
    by (simp add: nat_less_iff)
  finally show ?thesis .
qed

lemma demo_seq20_bytes: "BN_num_bytes demo_seq20 = 20"
proof -
  have "BN_num_bytes demo_seq20 \<le> 20" by (simp add: BN_num_bytes_le demo_seq20_def)
  moreover have "\<not> BN_num_bytes demo_seq20 \<le> 19" by (simp add: BN_num_bytes_le demo_seq20_def)
  ultimately show ?thesis by simp
qed

lemma demo_seq21_bytes: "20 < BN_num_bytes demo_seq21"
proof -
  have "\<not> BN_num_bytes demo_seq21 \<le> 20" by (simp add: BN_num_bytes_le demo_seq21_def)
  then show ?thesis by simp
qed

subsection \<open>The codec: primitives and loops\<close>

lemma le_value_le_bytes: "le_value (le_bytes k n) = n mod 256 ^ k"
proof (induction k arbitrary: n)
  case 0
  show ?case by simp
next
  case (Suc k)
  have "le_value (le_bytes (Suc k) n) = n mod 256 + 256 * (n div 256 mod 256 ^ k)"
    by (simp add: Suc)
  also have "\<dots> = n mod (256 * 256 ^ k)"
    by (simp add: mod_mult2_eq)
  finally show ?case by simp
qed

lemma length_le_bytes: "length (le_bytes k n) = k"
  by (induction k arbitrary: n) simp_all

lemma length_size_bytes: "length (size_bytes n) = 8"
  by (simp add: size_bytes_def length_le_bytes)

lemma le_value_size_bytes: "n < 2 ^ 64 \<Longrightarrow> le_value (size_bytes n) = n"
  by (simp add: size_bytes_def le_value_le_bytes)

lemma io_simple_read_append:
  "length bs = sz \<Longrightarrow> io_simple_read (bs @ rest) sz = Inr (bs, rest)"
  by (simp add: io_simple_read_def)

lemma io_str_buffer_append: "io_str_buffer b p = b @ io_str_buffer [] p"
  by (simp add: io_str_buffer_def io_simple_buffer_def Let_def)

lemma io_str_buffer_Some:
  "s \<noteq> [] \<Longrightarrow> io_str_buffer [] (Some s) = size_bytes (length s) @ s"
  by (simp add: io_str_buffer_def io_simple_buffer_def Let_def)

lemma io_str_read_buffer:
  assumes "str_ok p"
  shows "io_str_read (io_str_buffer [] p @ rest) = Inr (p, rest)"
proof -
  from assms obtain s where p: "p = Some s" and s: "s \<noteq> []" "length s < 2 ^ 64"
    by (auto simp: str_ok_def split: option.splits)
  have "io_simple_read (size_bytes (length s) @ s @ rest) 8 = Inr (size_bytes (length s), s @ rest)"
    by (rule io_simple_read_append) (rule length_size_bytes)
  moreover have "io_simple_read (s @ rest) (length s) = Inr (s, rest)"
    by (rule io_simple_read_append) simp
  ultimately show ?thesis
    using s by (simp add: p io_str_buffer_Some io_str_read_def le_value_size_bytes)
qed

lemma bytes_int_int_bytes:
  assumes "- (2 ^ 31) \<le> i" and "i < 2 ^ 31"
  shows "bytes_int (int_bytes i) = i"
proof -
  have v: "int (le_value (int_bytes i)) = i mod 2 ^ 32"
    by (simp add: int_bytes_def le_value_le_bytes)
  show ?thesis
  proof (cases "0 \<le> i")
    case True
    with assms have "i mod 2 ^ 32 = i" by simp
    with v assms True show ?thesis by (simp add: bytes_int_def Let_def)
  next
    case False
    have "i mod 2 ^ 32 = (i + 2 ^ 32) mod 2 ^ 32" by simp
    also have "\<dots> = i + 2 ^ 32"
      using assms False by (intro mod_pos_pos_trivial) simp_all
    finally have "i mod 2 ^ 32 = i + 2 ^ 32" .
    with v assms False show ?thesis by (simp add: bytes_int_def Let_def)
  qed
qed

lemma length_int_bytes: "length (int_bytes i) = 4"
  by (simp add: int_bytes_def length_le_bytes)

lemma mft_buffer_loop_eq:
  assumes "files p = Some arr" and "filesz p \<le> length arr" and "i \<le> filesz p"
  shows "mft_buffer_loop b p i =
           Inr (b @ concat (map entry_bytes (drop i (take (filesz p) arr))))"
  using assms(3)
proof (induction "filesz p - i" arbitrary: i b)
  case 0
  then have "i = filesz p" by simp
  then show ?case by (simp add: mft_buffer_loop.simps)
next
  case (Suc k)
  then have lt: "i < filesz p" by simp
  with assms(2) have il: "i < length arr" by simp
  have d: "drop i (take (filesz p) arr) = arr ! i # drop (Suc i) (take (filesz p) arr)"
    using lt il by (simp add: Cons_nth_drop_Suc [symmetric])
  have k: "k = filesz p - Suc i" using Suc.hyps(2) by simp
  have le: "Suc i \<le> filesz p" using lt by simp
  have "mft_buffer_loop b p i = mft_buffer_loop (b @ entry_bytes (arr ! i)) p (Suc i)"
    using lt il assms(1)
    by (subst mft_buffer_loop.simps)
      (simp add: Let_def entry_bytes_def io_simple_buffer_def
        io_str_buffer_append [of b])
  then show ?case by (simp add: Suc.hyps(1) [OF k le] d)
qed

lemma mft_read_loop_eq:
  assumes "files p = Some arr" and "filesz p \<le> length arr" and "i + length es = filesz p"
    and "\<forall>e \<in> set es. str_ok (mf_file e) \<and> length (mf_hash e) = SHA256_DIGEST_LENGTH"
  shows "mft_read_loop (concat (map entry_bytes es) @ rest) p i =
           Inr (p\<lparr>files := Some (take i arr @ es @ drop (filesz p) arr)\<rparr>, rest)"
  using assms
proof (induction es arbitrary: i p arr)
  case Nil
  then have "i = filesz p" by simp
  with Nil.prems(1,2) show ?case by (simp add: mft_read_loop.simps)
next
  case (Cons e es)
  then have lt: "i < filesz p" by simp
  with Cons.prems(2) have il: "i < length arr" by simp
  from Cons.prems(4) have ok: "str_ok (mf_file e)" "length (mf_hash e) = SHA256_DIGEST_LENGTH"
    by simp_all
  let ?tail = "concat (map entry_bytes es) @ rest"
  let ?p = "p\<lparr>files := Some (arr[i := e])\<rparr>"
  have r1: "io_str_read (io_str_buffer [] (mf_file e) @ mf_hash e @ ?tail)
      = Inr (mf_file e, mf_hash e @ ?tail)"
    by (rule io_str_read_buffer [OF ok(1)])
  have r2: "io_simple_read (mf_hash e @ ?tail) SHA256_DIGEST_LENGTH = Inr (mf_hash e, ?tail)"
    by (rule io_simple_read_append [OF ok(2)])
  have e: "\<lparr>mf_file = mf_file e, mf_hash = mf_hash e\<rparr> = e" by simp
  have step: "mft_read_loop (concat (map entry_bytes (e # es)) @ rest) p i
      = mft_read_loop ?tail ?p (Suc i)"
    using lt il Cons.prems(1) ok(2) r1 r2
    by (subst mft_read_loop.simps) (simp add: entry_bytes_def e)
  have "mft_read_loop ?tail ?p (Suc i)
      = Inr (?p\<lparr>files := Some (take (Suc i) (arr[i := e]) @ es @ drop (filesz ?p) (arr[i := e]))\<rparr>,
             rest)"
    using Cons.prems by (intro Cons.IH) simp_all
  also have "take (Suc i) (arr[i := e]) = take i arr @ [e]"
    using il by (simp add: take_Suc_conv_app_nth)
  also have "drop (filesz ?p) (arr[i := e]) = drop (filesz p) arr"
    using lt by simp
  finally show ?case using step by simp
qed

subsection \<open>The codec: encoding and decoding a manifest\<close>

lemma mft_roundtrip_wire_ok:
  assumes "wire_ok m"
  shows "mft_roundtrip m rest = Inr (m\<lparr>seqnum := None, files := Some (entries m)\<rparr>, rest)"
proof -
  obtain arr where arr: "arr = (case files m of None \<Rightarrow> [] | Some a \<Rightarrow> a)" by simp
  let ?es = "entries m"
  let ?tail = "io_str_buffer [] (aia m) @ io_str_buffer [] (aki m) @ io_str_buffer [] (ski m)"
  let ?head = "int_bytes (stale m) @ io_str_buffer [] (mft_file m) @ size_bytes (filesz m)"
  from assms have st: "- (2 ^ 31) \<le> stale m" "stale m < 2 ^ 31" and ao: "array_ok m"
    and sz: "filesz m < 2 ^ 64"
    and so: "str_ok (mft_file m)" "str_ok (aia m)" "str_ok (aki m)" "str_ok (ski m)"
    and eo: "\<forall>e \<in> set ?es. str_ok (mf_file e) \<and> length (mf_hash e) = SHA256_DIGEST_LENGTH"
    by (simp_all add: wire_ok_def)
  have len: "length ?es = filesz m"
    using ao by (auto simp: entries_def array_ok_def split: option.splits)
  have loopb: "mft_buffer_loop b m 0 = Inr (b @ concat (map entry_bytes ?es))" for b
  proof (cases "files m")
    case None
    with ao have "filesz m = 0" by (simp add: array_ok_def)
    with None show ?thesis by (simp add: mft_buffer_loop.simps entries_def)
  next
    case (Some a)
    with ao have "filesz m \<le> length a" by (simp add: array_ok_def)
    from mft_buffer_loop_eq [OF Some this, of 0 b] Some show ?thesis
      by (simp add: entries_def)
  qed
  have buf: "mft_buffer [] m = Inr (?head @ concat (map entry_bytes ?es) @ ?tail)"
    by (simp add: mft_buffer_def Let_def loopb io_simple_buffer_def
        io_str_buffer_append [of "_ @ _"] io_str_buffer_append [of "int_bytes (stale m)"])
  let ?s1 = "io_str_buffer [] (mft_file m) @ size_bytes (filesz m)
               @ concat (map entry_bytes ?es) @ ?tail @ rest"
  let ?s2 = "size_bytes (filesz m) @ concat (map entry_bytes ?es) @ ?tail @ rest"
  let ?s3 = "concat (map entry_bytes ?es) @ ?tail @ rest"
  let ?p0 = "calloc_mft\<lparr>stale := stale m, mft_file := mft_file m, filesz := filesz m,
               files := Some (replicate (filesz m) calloc_mftfile)\<rparr>"
  have r1: "io_simple_read (int_bytes (stale m) @ ?s1) 4 = Inr (int_bytes (stale m), ?s1)"
    by (rule io_simple_read_append) (rule length_int_bytes)
  have r2: "io_str_read ?s1 = Inr (mft_file m, ?s2)"
    by (rule io_str_read_buffer [OF so(1)])
  have r3: "io_simple_read ?s2 8 = Inr (size_bytes (filesz m), ?s3)"
    by (rule io_simple_read_append) (rule length_size_bytes)
  have r4: "mft_read_loop ?s3 ?p0 0 = Inr (?p0\<lparr>files := Some ?es\<rparr>, ?tail @ rest)"
    using mft_read_loop_eq [of ?p0 "replicate (filesz m) calloc_mftfile" 0 ?es "?tail @ rest"]
      len eo by simp
  have r5: "io_str_read (?tail @ rest)
      = Inr (aia m, io_str_buffer [] (aki m) @ io_str_buffer [] (ski m) @ rest)"
    using io_str_read_buffer [OF so(2)] by simp
  have r6: "io_str_read (io_str_buffer [] (aki m) @ io_str_buffer [] (ski m) @ rest)
      = Inr (aki m, io_str_buffer [] (ski m) @ rest)"
    using io_str_read_buffer [OF so(3)] by simp
  have r7: "io_str_read (io_str_buffer [] (ski m) @ rest) = Inr (ski m, rest)"
    by (rule io_str_read_buffer [OF so(4)])
  have present: "mft_file m \<noteq> None" "aia m \<noteq> None" "aki m \<noteq> None" "ski m \<noteq> None"
    using so by (auto simp: str_ok_def split: option.splits)
  have "mft_read ((?head @ concat (map entry_bytes ?es) @ ?tail) @ rest)
      = Inr (?p0\<lparr>files := Some ?es, aia := aia m, aki := aki m, ski := ski m\<rparr>, rest)"
    using r1 r2 r3 r4 r5 r6 r7 present
    by (simp add: mft_read_def Let_def bytes_int_int_bytes [OF st] le_value_size_bytes [OF sz])
  moreover have "?p0\<lparr>files := Some ?es, aia := aia m, aki := aki m, ski := ski m\<rparr>
      = m\<lparr>seqnum := None, files := Some ?es\<rparr>"
    by (simp add: calloc_mft_def)
  ultimately show ?thesis by (simp add: mft_roundtrip_def buf)
qed

lemma parsed_wire_ok:
  assumes "mft_parse ext fn = Inr (Some m, x)" and "fits_wire m"
  shows "wire_ok m"
proof -
  note r = mft_parse_result [OF assms(1)]
  have "str_ok (mf_file e) \<and> length (mf_hash e) = SHA256_DIGEST_LENGTH"
    if "e \<in> set (entries m)" for e
  proof -
    from r that have "entry_ok e" by (auto simp: entries_def)
    moreover from assms(2) that
    have "case mf_file e of None \<Rightarrow> True | Some n \<Rightarrow> length n < 2 ^ 64"
      by (simp add: fits_wire_def)
    ultimately show ?thesis by (auto simp: entry_ok_def str_ok_def split: option.splits)
  qed
  moreover from r have "array_ok m" "- (2 ^ 31) \<le> stale m" "stale m < 2 ^ 31"
    by (auto simp: array_ok_def)
  ultimately show ?thesis using assms(2) by (simp add: wire_ok_def fits_wire_def)
qed

subsection \<open>The version field\<close>

text \<open>
  With six elements the content decoder never accepts: it faults when the first
  element has no string to read, and fails otherwise, whatever \<open>cms_econtent_version\<close>
  makes of the bytes.
\<close>

lemma version_field_never_accepted:
  assumes "d2i_ASN1_SEQUENCE_ANY ext d = Some seq" and "length seq = 6"
  shows "mft_parse_econtent ext d res =
           (case asn1_string (seq ! 0) of None \<Rightarrow> Inl Fault | Some s \<Rightarrow> Inr (-1, res))"
  using assms by (simp add: mft_parse_econtent_def split: option.splits)

text \<open>
  Claim C7 fails at a manifest of six elements whose first element is an ASN.1 NULL:
  the claim has decoding fail, but the content decoder reads the element as a string
  without a look at its tag, through the NULL pointer that the union holds, so
  \<open>mft_parse\<close> ends in a fault and not in a failed decoding.  With a first element that
  is a string (here the explicit default version 0) decoding fails as claimed.
\<close>

theorem version_field_null_faults:
  "d2i_ASN1_SEQUENCE_ANY (demo_ext demo_now (V_NULL # demo_mft 1)) ''mft''
      = Some (V_NULL # demo_mft 1)
   \<and> length (V_NULL # demo_mft 1) = 6
   \<and> mft_parse_econtent (demo_ext demo_now (V_NULL # demo_mft 1)) ''mft'' calloc_mft = Inl Fault
   \<and> mft_parse (demo_ext demo_now (V_NULL # demo_mft 1)) ''repo/ca/a.mft'' = Inl Fault
   \<and> mft_parse_econtent (demo_ext demo_now (V_OTHER (-3) [CHR 0x00] # demo_mft 1)) ''mft''
        calloc_mft = Inr (-1, calloc_mft)"
  by (simp add: demo_ext_def demo_d2i_def demo_mft_def mft_oid_def mft_parse_def
      mft_parse_econtent_def calloc_mft_def Let_def V_ASN1_NULL_def V_ASN1_BOOLEAN_def
      V_ASN1_OBJECT_def)

subsection \<open>The validity evaluator\<close>




subsection \<open>Digest length\<close>



subsection \<open>File names\<close>

text \<open>
  Claim C5, as the code has it.  The name of a file entry is the C string that
  \<open>strndup\<close> takes from the IA5String field: its bytes before a first NUL byte.
  Decoding the entry fails if that name contains a slash or is at most 4 characters
  long, whatever the digest field is; with that entry the file list decoder fails for
  the whole list, whatever its other entries are, and \<open>mft_parse\<close> returns NULL for a
  manifest in which it gets to the file list.  A name of 5 or more characters without
  a slash is accepted, so that the entry is stored when its digest is a bit string of
  32 bytes.  For a field without a NUL byte the name is the whole field.  And every
  entry of a manifest that \<open>mft_parse\<close> returns has a name of more than 4 characters
  without a slash.
\<close>

theorem filehash_name_check:
  "(d2i_ASN1_SEQUENCE_ANY ext os = Some [V_IA5STRING raw, h] \<longrightarrow>
      (CHR ''/'' \<in> set (strndup raw (length raw)) \<or> length (strndup raw (length raw)) \<le> 4 \<longrightarrow>
         mft_parse_filehash ext res os = Inr (0, res)
         \<and> (d2i_ASN1_SEQUENCE_ANY ext l = Some seq \<and> V_SEQUENCE os \<in> set seq
               \<and> filesz res = 0 \<longrightarrow>
              (\<exists>res'. mft_parse_flist ext res l = Inr (0, res')))
         \<and> (file_list_reached ext fn cms x n from until obj l seq \<and> V_SEQUENCE os \<in> set seq \<longrightarrow>
              mft_parse ext fn = Inr (None, None)))
      \<and> (CHR ''/'' \<notin> set (strndup raw (length raw)) \<and> 5 \<le> length (strndup raw (length raw))
           \<and> h = V_BIT_STRING bits \<and> length bits = SHA256_DIGEST_LENGTH
           \<and> files res = Some arr \<and> filesz res < length arr \<longrightarrow>
            mft_parse_filehash ext res os =
              Inr (1, res\<lparr>files := Some (arr[filesz res :=
                     \<lparr>mf_file = Some (strndup raw (length raw)), mf_hash = bits\<rparr>]),
                   filesz := Suc (filesz res)\<rparr>)))
   \<and> (CHR 0x00 \<notin> set raw \<longrightarrow> strndup raw (length raw) = raw)
   \<and> (mft_parse ext fn = Inr (Some m, xo) \<longrightarrow>
         (\<forall>e \<in> set (entries m). \<exists>name. mf_file e = Some name
              \<and> CHR ''/'' \<notin> set name \<and> 4 < length name))"
proof -
  have rej: "mft_parse_filehash ext r os = Inr (0, r)"
    if "d2i_ASN1_SEQUENCE_ANY ext os = Some [V_IA5STRING raw, h]"
      and "CHR ''/'' \<in> set (strndup raw (length raw)) \<or> length (strndup raw (length raw)) \<le> 4"
    for r
    using that by (auto simp: mft_parse_filehash_def Let_def)
  have a: "\<exists>res'. mft_parse_flist ext res l = Inr (0, res')"
    if "d2i_ASN1_SEQUENCE_ANY ext os = Some [V_IA5STRING raw, h]"
      and "CHR ''/'' \<in> set (strndup raw (length raw)) \<or> length (strndup raw (length raw)) \<le> 4"
      and "d2i_ASN1_SEQUENCE_ANY ext l = Some seq" "V_SEQUENCE os \<in> set seq" "filesz res = 0"
    using flist_rejects [OF that(3,4) rej [OF that(1,2)] that(5)] .
  have b: "mft_parse ext fn = Inr (None, None)"
    if "d2i_ASN1_SEQUENCE_ANY ext os = Some [V_IA5STRING raw, h]"
      and "CHR ''/'' \<in> set (strndup raw (length raw)) \<or> length (strndup raw (length raw)) \<le> 4"
      and "file_list_reached ext fn cms x n from until obj l seq" "V_SEQUENCE os \<in> set seq"
    using mft_parse_rejects [OF that(3,4) rej [OF that(1,2)]] .
  have c: "mft_parse_filehash ext res os =
              Inr (1, res\<lparr>files := Some (arr[filesz res :=
                     \<lparr>mf_file = Some (strndup raw (length raw)), mf_hash = bits\<rparr>]),
                   filesz := Suc (filesz res)\<rparr>)"
    if "d2i_ASN1_SEQUENCE_ANY ext os = Some [V_IA5STRING raw, h]"
      and "CHR ''/'' \<notin> set (strndup raw (length raw))" "5 \<le> length (strndup raw (length raw))"
      and "h = V_BIT_STRING bits" "length bits = SHA256_DIGEST_LENGTH"
      and "files res = Some arr" "filesz res < length arr"
    using that by (auto simp: mft_parse_filehash_def Let_def)
  have d: "CHR 0x00 \<notin> set raw \<longrightarrow> strndup raw (length raw) = raw"
    by (auto simp: strndup_def takeWhile_eq_all_conv)
  have e: "\<exists>name. mf_file e = Some name \<and> CHR ''/'' \<notin> set name \<and> 4 < length name"
    if "mft_parse ext fn = Inr (Some m, xo)" and "e \<in> set (entries m)" for e
  proof -
    from mft_parse_result [OF that(1)] that(2) have "entry_ok e"
      by (auto simp: entries_def)
    then show ?thesis by (auto simp: entry_ok_def split: option.splits)
  qed
  from rej [of res] a b c d e show ?thesis by blast
qed



theorem filehash_name_check_witness:
  "mft_parse (demo_ext_entry [V_IA5STRING ''b/bbb.roa'', V_BIT_STRING (replicate 32 (CHR ''B''))]) ''repo/ca/a.mft'' = Inr (None, None)
   \<and> mft_parse (demo_ext_entry [V_IA5STRING ''.roa'', V_BIT_STRING (replicate 32 (CHR ''B''))]) ''repo/ca/a.mft'' = Inr (None, None)
   \<and> mft_parse_filehash (demo_ext_entry [V_IA5STRING ''b.roa'', V_BIT_STRING (replicate 32 (CHR ''B''))])
        (calloc_mft\<lparr>files := Some [calloc_mftfile]\<rparr>) ''fh2''
      = Inr (1, calloc_mft\<lparr>files := Some [\<lparr>mf_file = Some ''b.roa'',
                 mf_hash = replicate 32 (CHR ''B'')\<rparr>], filesz := 1\<rparr>)
   \<and> mft_parse (demo_ext_entry [V_IA5STRING ''b.roa'', V_BIT_STRING (replicate 32 (CHR ''B''))]) ''repo/ca/a.mft''
      = Inr (Some \<lparr>mft_file = Some ''repo/ca/a.mft'',
     files = Some [\<lparr>mf_file = Some ''aaaaa.cer'', mf_hash = replicate 32 (CHR ''A'')\<rparr>,
                   \<lparr>mf_file = Some ''b.roa'', mf_hash = replicate 32 (CHR ''B'')\<rparr>],
     filesz = 2, stale = 0, seqnum = Some ''01'', aia = Some ''rsync://h/ca.cer'',
     aki = Some ''AA:BB'', ski = Some ''CC:DD''\<rparr>, Some 7)"
  using
    filehash_name_check [where ext = "demo_ext_entry [V_IA5STRING ''b/bbb.roa'', V_BIT_STRING (replicate 32 (CHR ''B''))]"
      and os = "''fh2''" and raw = "''b/bbb.roa''" and h = "V_BIT_STRING (replicate 32 (CHR ''B''))"
      and l = "''list''" and seq = "[V_SEQUENCE ''fh1'', V_SEQUENCE ''fh2'']"
      and fn = "''repo/ca/a.mft''" and cms = "''mft''" and x = 7 and n = 1
      and ?from = "''20210101000000Z''" and until = "''20210131000000Z''"
      and obj = sha256_oid and res = calloc_mft]
    filehash_name_check [where ext = "demo_ext_entry [V_IA5STRING ''.roa'', V_BIT_STRING (replicate 32 (CHR ''B''))]"
      and os = "''fh2''" and raw = "''.roa''" and h = "V_BIT_STRING (replicate 32 (CHR ''B''))"
      and l = "''list''" and seq = "[V_SEQUENCE ''fh1'', V_SEQUENCE ''fh2'']"
      and fn = "''repo/ca/a.mft''" and cms = "''mft''" and x = 7 and n = 1
      and ?from = "''20210101000000Z''" and until = "''20210131000000Z''"
      and obj = sha256_oid and res = calloc_mft]
    filehash_name_check [where ext = "demo_ext_entry [V_IA5STRING ''b.roa'', V_BIT_STRING (replicate 32 (CHR ''B''))]"
      and os = "''fh2''" and raw = "''b.roa''" and h = "V_BIT_STRING (replicate 32 (CHR ''B''))"
      and l = "''list''" and seq = "[V_SEQUENCE ''fh1'', V_SEQUENCE ''fh2'']"
      and fn = "''repo/ca/a.mft''" and cms = "''mft''" and x = 7 and n = 1
      and ?from = "''20210101000000Z''" and until = "''20210131000000Z''"
      and obj = sha256_oid and res = "calloc_mft\<lparr>files := Some [calloc_mftfile]\<rparr>"
      and bits = "replicate 32 (CHR ''B'')" and arr = "[calloc_mftfile]"
      and m = "\<lparr>mft_file = Some ''repo/ca/a.mft'',
     files = Some [\<lparr>mf_file = Some ''aaaaa.cer'', mf_hash = replicate 32 (CHR ''A'')\<rparr>,
                   \<lparr>mf_file = Some ''b.roa'', mf_hash = replicate 32 (CHR ''B'')\<rparr>],
     filesz = 2, stale = 0, seqnum = Some ''01'', aia = Some ''rsync://h/ca.cer'',
     aki = Some ''AA:BB'', ski = Some ''CC:DD''\<rparr>" and xo = "Some 7"]
    demo_entry_reached
  by (simp add: demo_ext_entry_def demo_eval demo_parsed_def file_list_reached_def
      BN_num_bytes_def BN_num_bits_def num_bits.simps BN_bn2hex_def be_bytes.simps
      hex_byte_def Hex_def)


text \<open>
  Claim C5 as stated fails for the name field as it is encoded: the field
  \<open>bbbbb\<close>, NUL, \<open>/x.roa\<close> contains a slash, yet the entry is accepted and the
  manifest is returned, with the name \<open>bbbbb\<close>.
\<close>

theorem filehash_name_counterexample:
  "CHR ''/'' \<in> set (''bbbbb'' @ [CHR 0x00] @ ''/x.roa'')
   \<and> d2i_ASN1_SEQUENCE_ANY (demo_ext_entry [V_IA5STRING (''bbbbb'' @ [CHR 0x00] @ ''/x.roa''), V_BIT_STRING (replicate 32 (CHR ''B''))]) ''fh2''
      = Some [V_IA5STRING (''bbbbb'' @ [CHR 0x00] @ ''/x.roa''), V_BIT_STRING (replicate 32 (CHR ''B''))]
   \<and> mft_parse_filehash (demo_ext_entry [V_IA5STRING (''bbbbb'' @ [CHR 0x00] @ ''/x.roa''), V_BIT_STRING (replicate 32 (CHR ''B''))])
        (calloc_mft\<lparr>files := Some [calloc_mftfile]\<rparr>) ''fh2''
      = Inr (1, calloc_mft\<lparr>files := Some [\<lparr>mf_file = Some ''bbbbb'',
                 mf_hash = replicate 32 (CHR ''B'')\<rparr>], filesz := 1\<rparr>)
   \<and> mft_parse (demo_ext_entry [V_IA5STRING (''bbbbb'' @ [CHR 0x00] @ ''/x.roa''), V_BIT_STRING (replicate 32 (CHR ''B''))]) ''repo/ca/a.mft''
      = Inr (Some \<lparr>mft_file = Some ''repo/ca/a.mft'',
     files = Some [\<lparr>mf_file = Some ''aaaaa.cer'', mf_hash = replicate 32 (CHR ''A'')\<rparr>,
                   \<lparr>mf_file = Some ''bbbbb'', mf_hash = replicate 32 (CHR ''B'')\<rparr>],
     filesz = 2, stale = 0, seqnum = Some ''01'', aia = Some ''rsync://h/ca.cer'',
     aki = Some ''AA:BB'', ski = Some ''CC:DD''\<rparr>, Some 7)"
  by (simp add: demo_ext_entry_def demo_eval demo_parsed_def file_list_reached_def
      BN_num_bytes_def BN_num_bits_def num_bits.simps BN_bn2hex_def be_bytes.simps
      hex_byte_def Hex_def)

subsection \<open>Stale manifests carry no entries\<close>

text \<open>
  Claim C3.  A manifest returned by \<open>mft_parse\<close> with its stale flag set has
  \<open>filesz = 0\<close> and \<open>files = NULL\<close>.  And a five-element manifest with an admissible
  sequence number whose time window is well-formed but has expired is returned, with
  the stale flag set and no entries, whatever its last two elements (the digest
  algorithm and the file list with its entries) are.
\<close>

theorem stale_manifest_is_empty:
  "(mft_parse ext fn = Inr (Some m, x) \<and> stale m \<noteq> 0 \<longrightarrow>
       filesz m = 0 \<and> files m = None \<and> entries m = [])
   \<and> (cms_parse_validate ext fn mft_oid = Some (cms, Some x0)
       \<and> x509_get_aia ext x0 \<noteq> None \<and> x509_get_aki ext x0 0 \<noteq> None
       \<and> x509_get_ski ext x0 \<noteq> None
       \<and> d2i_ASN1_SEQUENCE_ANY ext cms =
            Some [V_INTEGER n, V_GENERALIZEDTIME from, V_GENERALIZEDTIME until, alg, fl]
       \<and> 0 \<le> n \<and> BN_num_bytes n \<le> 20
       \<and> gmtime_r ext (time_NULL ext) = Some tm_now
       \<and> \<not> window_invalid ext tm_now from until \<and> window_expired ext tm_now until \<longrightarrow>
       (\<exists>m'. mft_parse ext fn = Inr (Some m', Some x0) \<and> stale m' = 1
            \<and> filesz m' = 0 \<and> files m' = None \<and> entries m' = []))"
proof (rule conjI; rule impI)
  assume "mft_parse ext fn = Inr (Some m, x) \<and> stale m \<noteq> 0"
  then have "mft_parse ext fn = Inr (Some m, x)" and "stale m \<noteq> 0" by simp_all
  from mft_parse_result [OF this(1)] this(2)
  show "filesz m = 0 \<and> files m = None \<and> entries m = []"
    by (auto simp: entries_def)
next
  assume a: "cms_parse_validate ext fn mft_oid = Some (cms, Some x0)
       \<and> x509_get_aia ext x0 \<noteq> None \<and> x509_get_aki ext x0 0 \<noteq> None
       \<and> x509_get_ski ext x0 \<noteq> None
       \<and> d2i_ASN1_SEQUENCE_ANY ext cms =
            Some [V_INTEGER n, V_GENERALIZEDTIME from, V_GENERALIZEDTIME until, alg, fl]
       \<and> 0 \<le> n \<and> BN_num_bytes n \<le> 20
       \<and> gmtime_r ext (time_NULL ext) = Some tm_now
       \<and> \<not> window_invalid ext tm_now from until \<and> window_expired ext tm_now until"
  have cv: "check_validity ext from until = 0"
    using a check_validity_stale [of ext tm_now "from" until] by blast
  have "mft_parse ext fn =
     Inr (Some (calloc_mft\<lparr>mft_file := Some fn, aia := x509_get_aia ext x0,
                  aki := x509_get_aki ext x0 0, ski := x509_get_ski ext x0,
                  seqnum := Some (BN_bn2hex n), stale := 1, filesz := 0, files := None\<rparr>),
          Some x0)"
    using a stale_parse [of ext fn cms x0 n "from" until alg fl, OF _ _ _ _ _ _ _ cv] by blast
  then show "\<exists>m'. mft_parse ext fn = Inr (Some m', Some x0) \<and> stale m' = 1
            \<and> filesz m' = 0 \<and> files m' = None \<and> entries m' = []"
    by (simp add: entries_def)
qed

theorem stale_manifest_is_empty_witness:
  "mft_parse (demo_ext demo_later (demo_mft 255)) ''repo/ca/a.mft'' =
     Inr (Some \<lparr>mft_file = Some ''repo/ca/a.mft'', files = None, filesz = 0, stale = 1,
            seqnum = Some (BN_bn2hex 255), aia = Some ''rsync://h/ca.cer'', aki = Some ''AA:BB'',
            ski = Some ''CC:DD''\<rparr>, Some 7)
   \<and> d2i_ASN1_SEQUENCE_ANY (demo_ext demo_later (demo_mft 255)) ''list''
       = Some [V_SEQUENCE ''fh1'', V_SEQUENCE ''fh2'']
   \<and> window_expired (demo_ext demo_later (demo_mft 255)) demo_later ''20210131000000Z''"
  using stale_manifest_is_empty [of "demo_ext demo_later (demo_mft 255)" "''repo/ca/a.mft''"
      "\<lparr>mft_file = Some ''repo/ca/a.mft'', files = None, filesz = 0, stale = 1,
            seqnum = Some (BN_bn2hex 255), aia = Some ''rsync://h/ca.cer'', aki = Some ''AA:BB'',
            ski = Some ''CC:DD''\<rparr>" "Some 7" "''mft''" 7 255 "''20210101000000Z''"
      "''20210131000000Z''" "V_OBJECT sha256_oid" "V_SEQUENCE ''list''" demo_later]
    demo_num_bytes_255
  by (simp add: demo_eval)


subsection \<open>Nothing after the time fields is read for a stale manifest\<close>

text \<open>
  Claim C9.  When \<open>check_validity\<close> classifies a five-element manifest with an
  admissible sequence number as stale, \<open>mft_parse_econtent\<close> returns 0 at once and
  \<open>mft_parse\<close> returns a manifest with the stale flag set and no entries.  The fourth
  and fifth elements are arbitrary: the digest algorithm need not be SHA-256 and the
  file list need not even be a sequence.
\<close>

theorem stale_skips_remaining_fields:
  assumes "d2i_ASN1_SEQUENCE_ANY ext cms =
             Some [V_INTEGER n, V_GENERALIZEDTIME from, V_GENERALIZEDTIME until, alg, fl]"
    and "0 \<le> n" and "BN_num_bytes n \<le> 20"
    and "check_validity ext from until = 0"
  shows "mft_parse_econtent ext cms res = Inr (0, res\<lparr>seqnum := Some (BN_bn2hex n)\<rparr>)
    \<and> (cms_parse_validate ext fn mft_oid = Some (cms, Some x0)
        \<and> x509_get_aia ext x0 \<noteq> None \<and> x509_get_aki ext x0 0 \<noteq> None
        \<and> x509_get_ski ext x0 \<noteq> None \<longrightarrow>
        mft_parse ext fn =
          Inr (Some (calloc_mft\<lparr>mft_file := Some fn, aia := x509_get_aia ext x0,
                  aki := x509_get_aki ext x0 0, ski := x509_get_ski ext x0,
                  seqnum := Some (BN_bn2hex n), stale := 1, filesz := 0, files := None\<rparr>),
               Some x0))"
proof -
  have "mft_parse_econtent ext cms res = Inr (0, res\<lparr>seqnum := Some (BN_bn2hex n)\<rparr>)"
    using assms by (simp add: mft_parse_econtent_def Let_def BN_is_negative_def)
  moreover have "mft_parse ext fn =
          Inr (Some (calloc_mft\<lparr>mft_file := Some fn, aia := x509_get_aia ext x0,
                  aki := x509_get_aki ext x0 0, ski := x509_get_ski ext x0,
                  seqnum := Some (BN_bn2hex n), stale := 1, filesz := 0, files := None\<rparr>),
               Some x0)"
    if "cms_parse_validate ext fn mft_oid = Some (cms, Some x0)"
      and "x509_get_aia ext x0 \<noteq> None" "x509_get_aki ext x0 0 \<noteq> None"
      and "x509_get_ski ext x0 \<noteq> None"
    using stale_parse [OF that assms] .
  ultimately show ?thesis by blast
qed

theorem stale_skips_remaining_fields_witness:
  "mft_parse
     (demo_ext demo_later [V_INTEGER 255, V_GENERALIZEDTIME ''20210101000000Z'',
        V_GENERALIZEDTIME ''20210131000000Z'', V_OBJECT [1, 2, 3], V_INTEGER 7])
     ''repo/ca/a.mft''
   = Inr (Some \<lparr>mft_file = Some ''repo/ca/a.mft'', files = None, filesz = 0, stale = 1,
            seqnum = Some (BN_bn2hex 255), aia = Some ''rsync://h/ca.cer'', aki = Some ''AA:BB'',
            ski = Some ''CC:DD''\<rparr>, Some 7)
   \<and> mft_parse
     (demo_ext demo_now [V_INTEGER 255, V_GENERALIZEDTIME ''20210101000000Z'',
        V_GENERALIZEDTIME ''20210131000000Z'', V_OBJECT [1, 2, 3], V_INTEGER 7])
     ''repo/ca/a.mft''
   = Inr (None, None)"
  using stale_skips_remaining_fields [of
      "demo_ext demo_later [V_INTEGER 255, V_GENERALIZEDTIME ''20210101000000Z'',
        V_GENERALIZEDTIME ''20210131000000Z'', V_OBJECT [1, 2, 3], V_INTEGER 7]"
      "''mft''" 255 "''20210101000000Z''" "''20210131000000Z''" "V_OBJECT [1, 2, 3]" "V_INTEGER 7"
      calloc_mft "''repo/ca/a.mft''" 7]
    demo_num_bytes_255
  by (simp add: demo_eval)


subsection \<open>The digest verifier\<close>

text \<open>
  Claim C8.  For a path \<open>fn\<close> with a slash and a manifest whose array holds its
  \<open>filesz\<close> entries, \<open>mft_check\<close> compares every entry: it returns 1 if and only if
  the digest of every entry matched and 0 otherwise, and it has reported exactly the
  entries whose digest did not match, in their order; a mismatch does not end the loop.
\<close>

theorem mft_check_checks_all:
  assumes "strrchr fn (CHR ''/'') = Some cp" and "cp < INT_MAX" and "array_ok p"
  shows "mft_check ext fn p =
     Inr (if \<forall>e \<in> set (entries p). digest_matches ext fn cp e then 1 else 0,
          map (\<lambda>e. printf_s (mf_file e))
            (filter (\<lambda>e. \<not> digest_matches ext fn cp e) (entries p)))"
proof (cases "files p")
  case None
  with assms(3) have "filesz p = 0" by (simp add: array_ok_def)
  then have "mft_check_loop ext fn cp p 0 1 [] = Inr (1, [])"
    by (simp add: mft_check_loop.simps)
  with assms None show ?thesis by (simp add: mft_check_def entries_def)
next
  case (Some arr)
  with assms(3) have "filesz p \<le> length arr" by (simp add: array_ok_def)
  from mft_check_loop_eq [OF Some this, of 0 ext fn cp 1 "[]"] assms(1,2) Some
  show ?thesis by (simp add: mft_check_def entries_def)
qed

theorem mft_check_checks_all_witness:
  "strrchr ''repo/ca/a.mft'' (CHR ''/'') = Some 7 \<and> 7 < INT_MAX \<and> array_ok demo_parsed
   \<and> mft_check (demo_ext demo_now []) ''repo/ca/a.mft'' demo_parsed = Inr (0, [''bbbbb.roa''])
   \<and> mft_check ((demo_ext demo_now [])\<lparr>valid_filehash := (\<lambda>path h n. False)\<rparr>)
        ''repo/ca/a.mft'' demo_parsed = Inr (0, [''aaaaa.cer'', ''bbbbb.roa''])
   \<and> mft_check ((demo_ext demo_now [])\<lparr>valid_filehash := (\<lambda>path h n. True)\<rparr>)
        ''repo/ca/a.mft'' demo_parsed = Inr (1, [])"
  using
    mft_check_checks_all [where fn = "''repo/ca/a.mft''" and cp = 7 and p = demo_parsed
      and ext = "demo_ext demo_now []"]
    mft_check_checks_all [where fn = "''repo/ca/a.mft''" and cp = 7 and p = demo_parsed
      and ext = "(demo_ext demo_now [])\<lparr>valid_filehash := (\<lambda>path h n. False)\<rparr>"]
    mft_check_checks_all [where fn = "''repo/ca/a.mft''" and cp = 7 and p = demo_parsed
      and ext = "(demo_ext demo_now [])\<lparr>valid_filehash := (\<lambda>path h n. True)\<rparr>"]
  by (auto simp: demo_ext_def demo_parsed_def array_ok_def INT_MAX_def entries_def
      digest_matches_def printf_s_def SHA256_DIGEST_LENGTH_def)

text \<open>
  Claim C10.  For a manifest with \<open>filesz = 0\<close>, and so for every stale manifest that
  \<open>mft_parse\<close> returns, \<open>mft_check\<close> returns 1 and reports nothing, whatever
  \<open>valid_filehash\<close> would answer: no digest is compared.
\<close>

theorem mft_check_empty:
  assumes "strrchr fn (CHR ''/'') = Some cp" and "cp < INT_MAX"
  shows "(filesz p = 0 \<longrightarrow> mft_check (ext\<lparr>valid_filehash := vf\<rparr>) fn p = Inr (1, []))
    \<and> (mft_parse ext f = Inr (Some m, x) \<and> stale m \<noteq> 0 \<longrightarrow>
         mft_check (ext\<lparr>valid_filehash := vf\<rparr>) fn m = Inr (1, []))"
proof -
  have e: "mft_check ext' fn q = Inr (1, [])" if "filesz q = 0" for q and ext' :: "('a, 'b) extern"
    using assms that by (simp add: mft_check_def mft_check_loop.simps)
  have "filesz m = 0" if "mft_parse ext f = Inr (Some m, x)" "stale m \<noteq> 0"
    using mft_parse_result [OF that(1)] that(2) by auto
  with e show ?thesis by blast
qed

theorem mft_check_empty_witness:
  "strrchr ''repo/ca/a.mft'' (CHR ''/'') = Some 7 \<and> 7 < INT_MAX
   \<and> filesz (demo_parsed\<lparr>filesz := 0\<rparr>) = 0
   \<and> mft_check ((demo_ext demo_later (demo_mft 255))\<lparr>valid_filehash := (\<lambda>path h n. False)\<rparr>)
        ''repo/ca/a.mft'' (demo_parsed\<lparr>filesz := 0\<rparr>) = Inr (1, [])
   \<and> mft_parse (demo_ext demo_later (demo_mft 255)) ''repo/ca/a.mft'' =
        Inr (Some (demo_parsed\<lparr>files := None, filesz := 0, stale := 1,
               seqnum := Some (BN_bn2hex 255)\<rparr>), Some 7)
   \<and> mft_check ((demo_ext demo_later (demo_mft 255))\<lparr>valid_filehash := (\<lambda>path h n. False)\<rparr>)
        ''repo/ca/a.mft''
        (demo_parsed\<lparr>files := None, filesz := 0, stale := 1, seqnum := Some (BN_bn2hex 255)\<rparr>)
       = Inr (1, [])"
  using mft_check_empty [where fn = "''repo/ca/a.mft''" and cp = 7
      and p = "demo_parsed\<lparr>filesz := 0\<rparr>"
      and ext = "demo_ext demo_later (demo_mft 255)" and vf = "\<lambda>path h n. False"
      and f = "''repo/ca/a.mft''"
      and m = "demo_parsed\<lparr>files := None, filesz := 0, stale := 1,
                 seqnum := Some (BN_bn2hex 255)\<rparr>"
      and x = "Some 7"]
    demo_num_bytes_255
  by (simp add: demo_eval demo_parsed_def INT_MAX_def)


subsection \<open>The sequence number\<close>

text \<open>
  Claim C4.  For a manifest of five elements that starts with an INTEGER \<open>n\<close>, decoding
  the content fails if \<open>n\<close> is negative or needs more than 20 octets, that is, if its
  magnitude is at least \<open>2 ^ 160\<close>.  For a non-negative \<open>n\<close> of exactly 20 octets the
  check passes: when the remaining elements are in order the decoder succeeds, and the
  stored sequence number is the hexadecimal string of \<open>n\<close>, which denotes \<open>n\<close> again.
\<close>

theorem seqnum_bounds:
  assumes "d2i_ASN1_SEQUENCE_ANY ext d = Some [V_INTEGER n, ta, tb, tc, td]"
  shows "(n < 0 \<or> 20 < BN_num_bytes n \<longrightarrow> mft_parse_econtent ext d res = Inr (-1, res))
    \<and> (0 \<le> n \<and> BN_num_bytes n = 20 \<longrightarrow>
          int (hex_value (BN_bn2hex n)) = n
          \<and> (ta = V_GENERALIZEDTIME from \<and> tb = V_GENERALIZEDTIME until
             \<and> check_validity ext from until = 1
             \<and> tc = V_OBJECT obj \<and> OBJ_obj2nid ext obj = NID_sha256 \<and> td = V_SEQUENCE os
             \<and> mft_parse_flist ext (res\<lparr>seqnum := Some (BN_bn2hex n)\<rparr>) os = Inr (ok, res')
             \<and> ok \<noteq> 0 \<longrightarrow>
               mft_parse_econtent ext d res = Inr (1, res')
               \<and> seqnum res' = Some (BN_bn2hex n)))
    \<and> (20 < BN_num_bytes n \<longleftrightarrow> 2 ^ 160 \<le> \<bar>n\<bar>)"
proof -
  have a: "mft_parse_econtent ext d res = Inr (-1, res)" if "n < 0 \<or> 20 < BN_num_bytes n"
    using assms that by (auto simp: mft_parse_econtent_def BN_is_negative_def)
  have b: "mft_parse_econtent ext d res = Inr (1, res') \<and> seqnum res' = Some (BN_bn2hex n)"
    if "0 \<le> n" "BN_num_bytes n = 20"
      and "ta = V_GENERALIZEDTIME from" "tb = V_GENERALIZEDTIME until"
      and "check_validity ext from until = 1"
      and "tc = V_OBJECT obj" "OBJ_obj2nid ext obj = NID_sha256" "td = V_SEQUENCE os"
      and fl: "mft_parse_flist ext (res\<lparr>seqnum := Some (BN_bn2hex n)\<rparr>) os = Inr (ok, res')"
      and "ok \<noteq> 0"
    using assms that flist_keeps [OF fl]
    by (simp add: mft_parse_econtent_def BN_is_negative_def Let_def)
  have "20 < BN_num_bytes n \<longleftrightarrow> \<not> BN_num_bytes n \<le> 20" by auto
  also have "\<dots> \<longleftrightarrow> \<not> \<bar>n\<bar> < 2 ^ (8 * 20)" by (simp only: BN_num_bytes_le)
  also have "\<dots> \<longleftrightarrow> 2 ^ 160 \<le> \<bar>n\<bar>" by (simp add: not_less)
  finally have c: "20 < BN_num_bytes n \<longleftrightarrow> 2 ^ 160 \<le> \<bar>n\<bar>" .
  from a b c hex_value_bn2hex [of n] show ?thesis by blast
qed

lemma demo_seq20_nonneg: "0 \<le> demo_seq20" "\<not> demo_seq20 < 0"
  by (simp_all add: demo_seq20_def)

lemma demo_seq21_nonneg: "\<not> demo_seq21 < 0"
  by (simp add: demo_seq21_def)

theorem seqnum_bounds_witness:
  "BN_num_bytes demo_seq20 = 20
   \<and> mft_parse_econtent (demo_ext demo_now (demo_mft demo_seq20)) ''mft'' calloc_mft
       = Inr (1, demo_parsed\<lparr>mft_file := None, aia := None, aki := None, ski := None,
                    seqnum := Some (BN_bn2hex demo_seq20)\<rparr>)
   \<and> int (hex_value (BN_bn2hex demo_seq20)) = demo_seq20
   \<and> 20 < BN_num_bytes demo_seq21
   \<and> mft_parse_econtent (demo_ext demo_now (demo_mft demo_seq21)) ''mft'' calloc_mft
       = Inr (-1, calloc_mft)
   \<and> mft_parse_econtent (demo_ext demo_now (demo_mft (-1))) ''mft'' calloc_mft
       = Inr (-1, calloc_mft)"
  using
    seqnum_bounds [where ext = "demo_ext demo_now (demo_mft demo_seq20)" and d = "''mft''"
      and n = demo_seq20 and res = calloc_mft and ?from = "''20210101000000Z''"
      and until = "''20210131000000Z''" and obj = sha256_oid and os = "''list''" and ok = 1
      and ta = "V_GENERALIZEDTIME ''20210101000000Z''"
      and tb = "V_GENERALIZEDTIME ''20210131000000Z''"
      and tc = "V_OBJECT sha256_oid" and td = "V_SEQUENCE ''list''"
      and res' = "demo_parsed\<lparr>mft_file := None, aia := None, aki := None, ski := None,
                    seqnum := Some (BN_bn2hex demo_seq20)\<rparr>"]
    seqnum_bounds [where ext = "demo_ext demo_now (demo_mft demo_seq21)" and d = "''mft''"
      and n = demo_seq21 and res = calloc_mft
      and ta = "V_GENERALIZEDTIME ''20210101000000Z''"
      and tb = "V_GENERALIZEDTIME ''20210131000000Z''"
      and tc = "V_OBJECT sha256_oid" and td = "V_SEQUENCE ''list''"]
    seqnum_bounds [where ext = "demo_ext demo_now (demo_mft (-1))" and d = "''mft''"
      and n = "-1" and res = calloc_mft
      and ta = "V_GENERALIZEDTIME ''20210101000000Z''"
      and tb = "V_GENERALIZEDTIME ''20210131000000Z''"
      and tc = "V_OBJECT sha256_oid" and td = "V_SEQUENCE ''list''"]
    demo_seq20_bytes demo_seq21_bytes demo_seq20_nonneg demo_seq21_nonneg
  by (simp add: demo_eval demo_parsed_def)


subsection \<open>The round trip through the codec\<close>

text \<open>
  Claim C1, as the code has it.  Let \<open>m\<close> be a manifest returned by \<open>mft_parse\<close>
  whose path and certificate strings are not empty and whose lengths fit the size
  field.  Then \<open>mft_read\<close> applied to the output of \<open>mft_buffer\<close> consumes exactly
  that output and yields \<open>m\<close> with the same stale flag, path, entry count, entries
  (names and 32-byte digests, in order), AIA, AKI and SKI, also when there are no
  entries.  The sequence number is not part of the stream: the decoded manifest has
  none.  (The array pointer of a manifest without entries is NULL before and an empty
  array after.)
\<close>

theorem mft_roundtrip_parsed:
  assumes "mft_parse ext fn = Inr (Some m, x)" and "fits_wire m"
  shows "mft_roundtrip m rest = Inr (m\<lparr>seqnum := None, files := Some (entries m)\<rparr>, rest)
    \<and> entries (m\<lparr>seqnum := None, files := Some (entries m)\<rparr>) = entries m"
proof -
  from mft_parse_result [OF assms(1)] have "length (entries m) = filesz m"
    by (auto simp: entries_def)
  then have "entries (m\<lparr>seqnum := None, files := Some (entries m)\<rparr>) = entries m"
    by (simp add: entries_def)
  with mft_roundtrip_wire_ok [OF parsed_wire_ok [OF assms]] show ?thesis by simp
qed

theorem mft_roundtrip_parsed_witness:
  "mft_parse (demo_ext demo_now (demo_mft 1)) ''repo/ca/a.mft'' = Inr (Some demo_parsed, Some 7)
   \<and> fits_wire demo_parsed
   \<and> mft_roundtrip demo_parsed ''tail'' = Inr (demo_parsed\<lparr>seqnum := None\<rparr>, ''tail'')
   \<and> mft_parse (demo_ext demo_later (demo_mft 255)) ''repo/ca/a.mft''
       = Inr (Some demo_stale, Some 7)
   \<and> fits_wire demo_stale
   \<and> mft_roundtrip demo_stale [] = Inr (demo_stale\<lparr>seqnum := None, files := Some []\<rparr>, [])"
  using mft_roundtrip_parsed [OF demo_parse_valid demo_fits(1), of "''tail''"]
    mft_roundtrip_parsed [OF demo_parse_stale demo_fits(2), of "[]"]
    demo_parse_valid demo_parse_stale demo_fits
  by (simp add: entries_def demo_parsed_def demo_stale_def)

text \<open>
  Claim C1 as stated fails: the manifest that the concrete environment decodes has the
  sequence number \<open>01\<close>, and decoding its encoding yields a manifest without sequence
  number, which is not equal to it.
\<close>

theorem mft_roundtrip_counterexample:
  "mft_parse (demo_ext demo_now (demo_mft 1)) ''repo/ca/a.mft'' = Inr (Some demo_parsed, Some 7)
   \<and> seqnum demo_parsed = Some ''01''
   \<and> mft_roundtrip demo_parsed [] = Inr (demo_parsed\<lparr>seqnum := None\<rparr>, [])
   \<and> mft_roundtrip demo_parsed [] \<noteq> Inr (demo_parsed, [])"
proof -
  have "wire_ok demo_parsed"
    by (rule parsed_wire_ok [OF demo_parse_valid demo_fits(1)])
  from mft_roundtrip_wire_ok [OF this, of "[]"] demo_parse_valid show ?thesis
    by (simp add: entries_def demo_parsed_def)
qed


end
